theory Spec2Isabelle
  imports Main "HOL-Library.AList"
begin

section \<open>Errors, effects and the environment\<close>

text \<open>
  A JavaScript error object, reduced to the three properties the program reads:
  \<^verbatim>\<open>error.code\<close> (absent on HTTP-status errors and on plain \<^verbatim>\<open>new Error(...)\<close>),
  \<^verbatim>\<open>error.response.status\<close> (absent when there is no \<^verbatim>\<open>error.response\<close>) and
  \<^verbatim>\<open>error.message\<close>.
\<close>

record jserror =
  code :: "string option"
  status :: "nat option"
  message :: string

text \<open>
  The observable effects of a run: every invocation of an external operation (labelled, for
  an HTTP request, with its URL) and every \<^verbatim>\<open>sleep(ms)\<close>. Log lines are not recorded:
  the logger returns nothing, does not raise and never influences control flow.
\<close>

datatype event = Call string | Sleep nat

record 'w sys =
  world :: 'w
  trace :: "event list"

type_synonym ('w, 'a) prog = "'w sys \<Rightarrow> (jserror + 'a) \<times> 'w sys"

definition returns :: "'a \<Rightarrow> ('w, 'a) prog" where
  "returns x s = (Inr x, s)"

definition raises :: "jserror \<Rightarrow> ('w, 'a) prog" where
  "raises e s = (Inl e, s)"

definition andThen :: "('w, 'a) prog \<Rightarrow> ('a \<Rightarrow> ('w, 'b) prog) \<Rightarrow> ('w, 'b) prog" where
  "andThen m f s = (case m s of (Inl e, s1) \<Rightarrow> (Inl e, s1) | (Inr x, s1) \<Rightarrow> f x s1)"

definition tryCatch :: "('w, 'a) prog \<Rightarrow> (jserror \<Rightarrow> ('w, 'a) prog) \<Rightarrow> ('w, 'a) prog" where
  "tryCatch m h s = (case m s of (Inl e, s1) \<Rightarrow> h e s1 | (Inr x, s1) \<Rightarrow> (Inr x, s1))"

definition slept :: "nat \<Rightarrow> 'w sys \<Rightarrow> 'w sys" where
  "slept ms s = s\<lparr>trace := trace s @ [Sleep ms]\<rparr>"

definition sleep :: "nat \<Rightarrow> ('w, unit) prog" where
  "sleep ms s = (Inr (), slept ms s)"

text \<open>
  An external operation acts on the world only; \<open>invoke\<close> runs it once and records the
  invocation.
\<close>

definition invoke :: "string \<Rightarrow> ('w \<Rightarrow> (jserror + 'a) \<times> 'w) \<Rightarrow> ('w, 'a) prog" where
  "invoke label op s =
     (case op (world s) of (r, w1) \<Rightarrow> (r, \<lparr>world = w1, trace = trace s @ [Call label]\<rparr>))"

section \<open>lib/utils.js: withRetry\<close>

text \<open>
  The delay slept after failed attempt \<open>attempt\<close>, following the branch order of the
  \<^verbatim>\<open>catch\<close> block: the three network codes are tested first (they only differ in the
  log line and fall through to the adaptive delay), then HTTP status 429 sleeps
  \<^verbatim>\<open>delayMs * 2\<close> and continues, and every other error falls through to
  \<^verbatim>\<open>delayMs + (attempt * 500)\<close>.
\<close>

definition retryDelayFor :: "jserror \<Rightarrow> nat \<Rightarrow> nat \<Rightarrow> nat" where
  "retryDelayFor error delayMs attempt =
     (if code error = Some ''ECONNRESET'' then delayMs + (attempt * 500)
      else if code error = Some ''ECONNREFUSED'' then delayMs + (attempt * 500)
      else if code error = Some ''ETIMEDOUT'' then delayMs + (attempt * 500)
      else if status error = Some 429 then delayMs * 2
      else delayMs + (attempt * 500))"

text \<open>
  The \<^verbatim>\<open>for (attempt = 1; attempt <= maxRetries + 1; attempt++)\<close> loop. \<open>maxRetries\<close> and
  \<open>delayMs\<close> are non-negative integers. The loop guard holds on entry
  (\<open>1 \<le> maxRetries + 1\<close>) and after every \<^verbatim>\<open>continue\<close>, because an iteration only continues
  when \<open>attempt \<le> maxRetries\<close>; so the guard is not tested again and the
  \<^verbatim>\<open>throw lastError\<close> after the loop is unreachable, as its comment says.
\<close>

function retryLoop :: "('w, 'a) prog \<Rightarrow> nat \<Rightarrow> nat \<Rightarrow> nat \<Rightarrow> ('w, 'a) prog" where
  "retryLoop fn maxRetries delayMs attempt s =
     (case fn s of
        (Inr v, s1) \<Rightarrow> (Inr v, s1)
      | (Inl error, s1) \<Rightarrow>
          if attempt > maxRetries then (Inl error, s1)
          else retryLoop fn maxRetries delayMs (attempt + 1)
                 (slept (retryDelayFor error delayMs attempt) s1))"
  by pat_completeness auto
termination
  by (relation "measure (\<lambda>(fn, maxRetries, delayMs, attempt, s). maxRetries + 1 - attempt)") auto

declare retryLoop.simps [simp del]

definition withRetry :: "('w, 'a) prog \<Rightarrow> nat \<Rightarrow> nat \<Rightarrow> ('w, 'a) prog" where
  "withRetry fn maxRetries delayMs = retryLoop fn maxRetries delayMs 1"

text \<open>Reading a trace: the number of invocations and the total time slept.\<close>

fun attempts :: "event list \<Rightarrow> nat" where
  "attempts [] = 0"
| "attempts (Call l # es) = Suc (attempts es)"
| "attempts (Sleep ms # es) = attempts es"

fun totalSlept :: "event list \<Rightarrow> nat" where
  "totalSlept [] = 0"
| "totalSlept (Call l # es) = totalSlept es"
| "totalSlept (Sleep ms # es) = ms + totalSlept es"

text \<open>The world after \<open>n\<close> invocations of an operation.\<close>

fun afterRuns :: "('w \<Rightarrow> (jserror + 'a) \<times> 'w) \<Rightarrow> nat \<Rightarrow> 'w \<Rightarrow> 'w" where
  "afterRuns op 0 w = w"
| "afterRuns op (Suc n) w = afterRuns op n (snd (op w))"

text \<open>The error test of the rate-limit branch of \<open>withRetry\<close>.\<close>

definition rateLimited :: "jserror \<Rightarrow> bool" where
  "rateLimited e \<longleftrightarrow>
     status e = Some 429 \<and> code e \<noteq> Some ''ECONNRESET'' \<and> code e \<noteq> Some ''ECONNREFUSED''
       \<and> code e \<noteq> Some ''ETIMEDOUT''"

definition alwaysFailsWith :: "('w \<Rightarrow> (jserror + 'a) \<times> 'w) \<Rightarrow> (jserror \<Rightarrow> bool) \<Rightarrow> bool" where
  "alwaysFailsWith op P \<longleftrightarrow> (\<forall>w. \<exists>e w1. op w = (Inl e, w1) \<and> P e)"

text \<open>The trace of \<open>k\<close> failed attempts, numbered from \<open>a\<close>, each followed by its sleep.\<close>

fun failedAttempts :: "string \<Rightarrow> (nat \<Rightarrow> nat) \<Rightarrow> nat \<Rightarrow> nat \<Rightarrow> event list" where
  "failedAttempts l delay a 0 = []"
| "failedAttempts l delay a (Suc k) = Call l # Sleep (delay a) # failedAttempts l delay (Suc a) k"

section \<open>Configuration, wallets and the remote interface\<close>

text \<open>
  \<^verbatim>\<open>config.json\<close> is not part of the sources; the program reads these entries of it
  (\<^verbatim>\<open>general.*\<close>, \<^verbatim>\<open>harpie.*\<close>, \<^verbatim>\<open>scan.*\<close>). Entries that only switch log lines
  on or off are left out.
\<close>

record config =
  useProxy :: bool
  maxRetries :: nat
  retryDelay :: nat
  delayBetweenWallets :: nat
  baseUrl :: string
  chainId :: int
  requestTimeout :: nat
  headers :: "(string \<times> string) list"
  scanEnabled :: bool
  forceRescan :: bool

text \<open>
  A transport agent is built from a proxy URL with fixed pool options
  (\<^verbatim>\<open>timeout: 15000, keepAlive: true, maxSockets: 5, scheduling: 'lifo'\<close>).
\<close>

datatype agent = SocksProxyAgent string | HttpsProxyAgent string

text \<open>
  A wallet as \<^verbatim>\<open>createWallets\<close> builds it (\<^verbatim>\<open>address\<close>, \<^verbatim>\<open>privateKey\<close>, \<^verbatim>\<open>instance\<close>), and
  the same object after proxy assignment. \<open>proxy = None\<close> is \<^verbatim>\<open>null\<close>; \<open>proxyString\<close>
  and \<open>proxyIp\<close> are \<open>None\<close> when the property is absent or \<^verbatim>\<open>null\<close>.
\<close>

record 'i wallet =
  address :: string
  privateKey :: string
  ethersInstance :: 'i

record 'i walletData = "'i wallet" +
  proxy :: "agent option"
  proxyString :: "string option"
  proxyIp :: "string option"

text \<open>
  A response body, at the type the remote interface gives it: the properties that decide
  control flow are \<^verbatim>\<open>trackingId\<close> (a string), \<^verbatim>\<open>personalPoints\<close> (a number) and
  \<^verbatim>\<open>hasDoneDailyScan\<close> (a boolean), each possibly absent. All other properties are read
  for log lines only. A body that is itself falsy is \<open>None\<close> at the call site.
\<close>

record response =
  trackingId :: "string option"
  personalPoints :: "int option"
  hasDoneDailyScan :: "bool option"

datatype jval = JString string | JNumber int | JBoolean bool

type_synonym body = "(string \<times> jval) list"

record requestOptions =
  optBaseURL :: "string option"
  optTimeout :: "nat option"
  optHeaders :: "(string \<times> string) list option"
  optHttpAgent :: "agent option"
  optHttpsAgent :: "agent option"

record axiosConfig =
  baseURL :: string
  timeout :: nat
  requestHeaders :: "(string \<times> string) list"
  httpAgent :: "agent option"
  httpsAgent :: "agent option"

record ipResponse =
  ipStatus :: nat
  ipData :: "string option"

record url =
  urlProtocol :: string
  urlUsername :: string
  urlPassword :: string
  urlHostname :: string
  urlPort :: string

text \<open>
  What the program takes from outside of the repository: the HTTP transport
  (\<^verbatim>\<open>axios\<close>), \<^verbatim>\<open>uuidv4\<close>, the \<^verbatim>\<open>URL\<close> class, the two agent constructors, and the
  random draw of \<^verbatim>\<open>getRandomDelay(0.8 * d, 1.2 * d)\<close>. Each may fail where the library
  may throw.
\<close>

record 'w env =
  httpPost :: "axiosConfig \<Rightarrow> string \<Rightarrow> body \<Rightarrow> 'w \<Rightarrow> (jserror + response option) \<times> 'w"
  uuidv4 :: "'w \<Rightarrow> string \<times> 'w"
  ipify :: "agent \<Rightarrow> 'w \<Rightarrow> (jserror + ipResponse) \<times> 'w"
  newURL :: "string \<Rightarrow> jserror + url"
  newSocksProxyAgent :: "string \<Rightarrow> jserror + agent"
  newHttpsProxyAgent :: "string \<Rightarrow> jserror + agent"
  getRandomDelay :: "nat \<Rightarrow> 'w \<Rightarrow> nat \<times> 'w"

definition newError :: "string \<Rightarrow> jserror" where
  "newError msg = \<lparr>code = None, status = None, message = msg\<rparr>"

definition truthy :: "bool option \<Rightarrow> bool" where
  "truthy b \<longleftrightarrow> b = Some True"

text \<open>\<^verbatim>\<open>a > b\<close> on numbers; with an absent operand the comparison is false.\<close>

definition jsGreater :: "int option \<Rightarrow> int option \<Rightarrow> bool" where
  "jsGreater a b = (case (a, b) of (Some x, Some y) \<Rightarrow> x > y | _ \<Rightarrow> False)"

section \<open>api/client.js\<close>

definition noOptions :: requestOptions where
  "noOptions = \<lparr>optBaseURL = None, optTimeout = None, optHeaders = None,
                 optHttpAgent = None, optHttpsAgent = None\<rparr>"

text \<open>
  \<open>createApiClient\<close> up to \<^verbatim>\<open>axios.create(axiosConfig)\<close>; the two interceptors it installs
  afterwards only log and pass the response or the error on. \<open>requestId\<close> is the value of
  \<^verbatim>\<open>const requestId = uuidv4()\<close>.
\<close>

definition createApiClient ::
  "config \<Rightarrow> string \<Rightarrow> requestOptions \<Rightarrow> 'i walletData option \<Rightarrow> axiosConfig" where
  "createApiClient cfg requestId options walletData =
     (let defaultHeaders =
            AList.update ''Pragma'' ''no-cache''
              (AList.update ''Cache-Control'' ''no-cache'' (headers cfg));
          axiosConfig =
            \<lparr>baseURL = (case optBaseURL options of Some b \<Rightarrow> b | None \<Rightarrow> baseUrl cfg),
             timeout = (case optTimeout options of Some t \<Rightarrow> t | None \<Rightarrow> requestTimeout cfg),
             requestHeaders = (case optHeaders options of Some h \<Rightarrow> h | None \<Rightarrow> defaultHeaders),
             httpAgent = optHttpAgent options,
             httpsAgent = optHttpsAgent options\<rparr>
      in case walletData of
           None \<Rightarrow> axiosConfig
         | Some wd \<Rightarrow>
             (case proxy wd of
                None \<Rightarrow> axiosConfig
              | Some a \<Rightarrow>
                  if useProxy cfg then axiosConfig\<lparr>httpAgent := Some a, httpsAgent := Some a\<rparr>
                  else axiosConfig))"

definition post ::
  "config \<Rightarrow> 'w env \<Rightarrow> string \<Rightarrow> body \<Rightarrow> requestOptions \<Rightarrow> 'i walletData
     \<Rightarrow> ('w, response option) prog" where
  "post cfg env path data options walletData s =
     (case uuidv4 env (world s) of
        (requestId, w1) \<Rightarrow>
          withRetry
            (invoke path (httpPost env (createApiClient cfg requestId options (Some walletData)) path data))
            (maxRetries cfg) (retryDelay cfg) (s\<lparr>world := w1\<rparr>))"

text \<open>Every string an \<open>axiosConfig\<close> holds.\<close>

definition configStrings :: "axiosConfig \<Rightarrow> string list" where
  "configStrings c = baseURL c # map fst (requestHeaders c) @ map snd (requestHeaders c)"

section \<open>api/leaderboard.js\<close>

definition getLeaderboardInfo :: "config \<Rightarrow> 'w env \<Rightarrow> 'i walletData \<Rightarrow> ('w, response) prog" where
  "getLeaderboardInfo cfg env walletData =
     tryCatch
       (andThen
          (post cfg env ''/api/hooks/get-leaderboard-info/''
             [(''address'', JString (address walletData)), (''chainId'', JNumber (chainId cfg)),
              (''includeLeaderboard'', JBoolean False), (''skipCache'', JBoolean True)]
             noOptions walletData)
          (\<lambda>response. case response of
               None \<Rightarrow> raises (newError ''Empty response received'')
             | Some r \<Rightarrow> returns r))
       (\<lambda>error. raises error)"

definition checkDailyScanStatus :: "config \<Rightarrow> 'w env \<Rightarrow> 'i walletData \<Rightarrow> ('w, bool) prog" where
  "checkDailyScanStatus cfg env walletData =
     tryCatch
       (andThen (getLeaderboardInfo cfg env walletData)
          (\<lambda>leaderboardInfo. returns (truthy (hasDoneDailyScan leaderboardInfo) \<or> False)))
       (\<lambda>error. returns False)"

section \<open>api/scan.js\<close>

definition scanPath :: "string \<Rightarrow> string" where
  "scanPath addr = ''/api/addresses/'' @ addr @ ''/queue-health/''"

definition performWalletScan :: "config \<Rightarrow> 'w env \<Rightarrow> 'i walletData \<Rightarrow> ('w, response) prog" where
  "performWalletScan cfg env walletData =
     tryCatch
       (andThen
          (post cfg env (scanPath (address walletData))
             [(''chainId'', JNumber (chainId cfg)), (''manualScan'', JBoolean True)]
             noOptions walletData)
          (\<lambda>response. case response of
               None \<Rightarrow> raises (newError ''Empty response received'')
             | Some r \<Rightarrow> returns r))
       (\<lambda>error. raises error)"

definition getTrackingId :: "config \<Rightarrow> 'w env \<Rightarrow> 'i walletData \<Rightarrow> ('w, string) prog" where
  "getTrackingId cfg env walletData =
     tryCatch
       (andThen
          (post cfg env ''/api/hooks/get-tracking-id/''
             [(''address'', JString (address walletData)), (''chainId'', JNumber (chainId cfg))]
             noOptions walletData)
          (\<lambda>response. case response of
               None \<Rightarrow> raises (newError ''Invalid tracking ID response'')
             | Some r \<Rightarrow>
                 (case trackingId r of
                    None \<Rightarrow> raises (newError ''Invalid tracking ID response'')
                  | Some t \<Rightarrow>
                      if t = [] then raises (newError ''Invalid tracking ID response'')
                      else returns t)))
       (\<lambda>error. raises error)"

definition getBasicDashboard :: "config \<Rightarrow> 'w env \<Rightarrow> 'i walletData \<Rightarrow> ('w, response) prog" where
  "getBasicDashboard cfg env walletData =
     tryCatch
       (andThen
          (post cfg env ''/api/hooks/get-basic-dashboard/''
             [(''dashboardId'', JString (address walletData)), (''chainId'', JNumber (chainId cfg))]
             noOptions walletData)
          (\<lambda>response. case response of
               None \<Rightarrow> raises (newError ''Empty response received'')
             | Some r \<Rightarrow> returns r))
       (\<lambda>error. raises error)"

text \<open>
  The two shapes of object \<open>performScanWorkflow\<close> returns:
  \<^verbatim>\<open>{ skipped: true, hasDoneDailyScan: true }\<close> and
  \<^verbatim>\<open>{ ...(scanResult || {}), success: b }\<close>, where \<open>scanResult\<close> is \<open>None\<close> when the scan
  request raised.
\<close>

datatype workflowResult = Skipped | Verified "response option" bool

definition performScanWorkflow ::
  "config \<Rightarrow> 'w env \<Rightarrow> 'i walletData \<Rightarrow> bool \<Rightarrow> response option \<Rightarrow> ('w, workflowResult) prog" where
  "performScanWorkflow cfg env walletData forceScan existingLeaderboardInfo =
     tryCatch
       (andThen (getTrackingId cfg env walletData) (\<lambda>_.
        andThen (case existingLeaderboardInfo of
                   Some info \<Rightarrow> returns info
                 | None \<Rightarrow> getLeaderboardInfo cfg env walletData) (\<lambda>leaderboardInfo.
        if truthy (hasDoneDailyScan leaderboardInfo) \<and> \<not> forceScan \<and> \<not> forceRescan cfg
        then returns Skipped
        else
          andThen (getBasicDashboard cfg env walletData) (\<lambda>_.
          andThen (tryCatch
                     (andThen (performWalletScan cfg env walletData) (\<lambda>r. returns (Some r)))
                     (\<lambda>error. returns None)) (\<lambda>scanResult.
          andThen (sleep 2000) (\<lambda>_.
          andThen (getLeaderboardInfo cfg env walletData) (\<lambda>updatedLeaderboard.
            let pointsIncreased =
                  jsGreater (personalPoints updatedLeaderboard) (personalPoints leaderboardInfo);
                scanCompleted = truthy (hasDoneDailyScan updatedLeaderboard)
            in if scanCompleted then returns (Verified scanResult True)
               else if pointsIncreased then returns (Verified scanResult True)
               else returns (Verified scanResult False))))))))
       (\<lambda>error. raises error)"

section \<open>lib/proxy.js\<close>

text \<open>The string methods \<^verbatim>\<open>startsWith\<close>, \<^verbatim>\<open>includes\<close> and \<^verbatim>\<open>split\<close> (on one character).\<close>

definition startsWith :: "string \<Rightarrow> string \<Rightarrow> bool" where
  "startsWith pre str \<longleftrightarrow> take (length pre) str = pre"

definition includesChar :: "char \<Rightarrow> string \<Rightarrow> bool" where
  "includesChar c str \<longleftrightarrow> c \<in> set str"

fun splitOn :: "char \<Rightarrow> string \<Rightarrow> string list" where
  "splitOn c [] = [[]]"
| "splitOn c (x # xs) =
     (if x = c then [] # splitOn c xs
      else (case splitOn c xs of
              piece # pieces \<Rightarrow> (x # piece) # pieces
            | [] \<Rightarrow> [[x]]))"

text \<open>An element of a destructured array: \<^verbatim>\<open>undefined\<close> beyond its length.\<close>

definition element :: "'a list \<Rightarrow> nat \<Rightarrow> 'a option" where
  "element xs i = (if i < length xs then Some (xs ! i) else None)"

record credentials =
  username :: string
  password :: "string option"

record parsedProxy =
  protocol :: string
  auth :: "credentials option"
  host :: string
  port :: string

text \<open>
  The branch for \<^verbatim>\<open>new URL(proxyString)\<close>, shared in the source by the SOCKS and the
  HTTP/HTTPS case: protocol without its first colon, credentials only when user name and
  password are both non-empty.
\<close>

definition fromURL :: "url \<Rightarrow> string \<times> credentials option \<times> string option \<times> string option" where
  "fromURL u =
     (remove1 (CHR '':'') (urlProtocol u),
      (if urlUsername u \<noteq> [] \<and> urlPassword u \<noteq> []
       then Some \<lparr>username = urlUsername u, password = Some (urlPassword u)\<rparr> else None),
      Some (urlHostname u), Some (urlPort u))"

text \<open>
  The body of the \<^verbatim>\<open>try\<close> block up to the validation: protocol, credentials, host and
  port as the branches assign them (\<open>None\<close> for \<^verbatim>\<open>undefined\<close>). A split never returns an
  empty array, and splitting a string that contains \<^verbatim>\<open>@\<close> at \<^verbatim>\<open>@\<close> returns at least two
  pieces, so the reads at index 0 and 1 written with \<open>!\<close> are in range.
\<close>

definition locate ::
  "'w env \<Rightarrow> string \<Rightarrow> jserror + (string \<times> credentials option \<times> string option \<times> string option)" where
  "locate env proxyStr =
     (if startsWith ''socks://'' proxyStr \<or> startsWith ''socks4://'' proxyStr
         \<or> startsWith ''socks5://'' proxyStr
      then (case newURL env proxyStr of Inl e \<Rightarrow> Inl e | Inr u \<Rightarrow> Inr (fromURL u))
      else if startsWith ''http://'' proxyStr \<or> startsWith ''https://'' proxyStr
      then (case newURL env proxyStr of Inl e \<Rightarrow> Inl e | Inr u \<Rightarrow> Inr (fromURL u))
      else if includesChar (CHR ''@'') proxyStr
      then (let parts = splitOn (CHR ''@'') proxyStr;
                authPart = parts ! 0;
                hostPart = parts ! 1;
                userPass = splitOn (CHR '':'') authPart;
                hostPortParts = splitOn (CHR '':'') hostPart
            in Inr (''http'',
                    Some \<lparr>username = userPass ! 0, password = element userPass 1\<rparr>,
                    element hostPortParts 0, element hostPortParts 1))
      else if includesChar (CHR '':'') proxyStr
      then (let hostPortParts = splitOn (CHR '':'') proxyStr
            in Inr (''http'', None, element hostPortParts 0, element hostPortParts 1))
      else Inr (''http'', None, None, None))"

text \<open>
  \<^verbatim>\<open>if (!host || !port) throw\<close>: a value is falsy when it is \<^verbatim>\<open>undefined\<close> or the empty
  string.
\<close>

definition parseProxyBody :: "'w env \<Rightarrow> string \<Rightarrow> jserror + parsedProxy" where
  "parseProxyBody env proxyStr =
     (case locate env proxyStr of
        Inl e \<Rightarrow> Inl e
      | Inr (proto, au, h, p) \<Rightarrow>
          (case (h, p) of
             (Some hostStr, Some portStr) \<Rightarrow>
               if hostStr = [] \<or> portStr = [] then Inl (newError ''Invalid proxy format'')
               else Inr \<lparr>protocol = proto, auth = au, host = hostStr, port = portStr\<rparr>
           | _ \<Rightarrow> Inl (newError ''Invalid proxy format'')))"

definition parseProxy :: "'w env \<Rightarrow> string \<Rightarrow> parsedProxy option" where
  "parseProxy env proxyStr =
     (case parseProxyBody env proxyStr of Inl error \<Rightarrow> None | Inr parsed \<Rightarrow> Some parsed)"

text \<open>A template literal prints an absent value as \<^verbatim>\<open>undefined\<close>.\<close>

definition interpolate :: "string option \<Rightarrow> string" where
  "interpolate v = (case v of None \<Rightarrow> ''undefined'' | Some str \<Rightarrow> str)"

definition createProxyAgent :: "'w env \<Rightarrow> string \<Rightarrow> agent option" where
  "createProxyAgent env proxyStr =
     (case parseProxy env proxyStr of
        None \<Rightarrow> None
      | Some parsed \<Rightarrow>
          (let proxyUrl =
                 (case auth parsed of
                    Some a \<Rightarrow> protocol parsed @ ''://'' @ username a @ '':''
                                @ interpolate (password a) @ ''@'' @ host parsed @ '':'' @ port parsed
                  | None \<Rightarrow> protocol parsed @ ''://'' @ host parsed @ '':'' @ port parsed)
           in case (if startsWith ''socks'' (protocol parsed) then newSocksProxyAgent env proxyUrl
                    else newHttpsProxyAgent env proxyUrl) of
                Inl error \<Rightarrow> None
              | Inr a \<Rightarrow> Some a))"

definition falsy :: "string option \<Rightarrow> bool" where
  "falsy v \<longleftrightarrow> (case v of None \<Rightarrow> True | Some str \<Rightarrow> str = [])"

definition ipifyURL :: string where
  "ipifyURL = ''https://api.ipify.org/?format=json''"

definition checkIpWithProxy :: "'w env \<Rightarrow> agent \<Rightarrow> ('w, string option) prog" where
  "checkIpWithProxy env proxyAgent =
     tryCatch
       (andThen (invoke ipifyURL (ipify env proxyAgent))
          (\<lambda>response. if ipStatus response = 200 \<and> \<not> falsy (ipData response)
                       then returns (ipData response) else returns None))
       (\<lambda>error. returns None)"

text \<open>
  The loop of \<open>assignProxiesToWallets\<close> from index \<open>i\<close> on, over the wallets still to
  annotate; it is only entered with a non-empty proxy list, so \<open>i mod length proxies\<close> is
  in range.
\<close>

fun assignFrom ::
  "'w env \<Rightarrow> string list \<Rightarrow> nat \<Rightarrow> 'i wallet list \<Rightarrow> ('w, 'i walletData list) prog" where
  "assignFrom env proxies i [] s = (Inr [], s)"
| "assignFrom env proxies i (wallet # rest) s =
     (let proxyStr = proxies ! (i mod length proxies);
          proxyAgent = createProxyAgent env proxyStr
      in case (case proxyAgent of
                 Some a \<Rightarrow> tryCatch (checkIpWithProxy env a) (\<lambda>error. returns None) s
               | None \<Rightarrow> (Inr None, s)) of
           (Inl e, s1) \<Rightarrow> (Inl e, s1)
         | (Inr ip, s1) \<Rightarrow>
             (case assignFrom env proxies (i + 1) rest s1 of
                (Inl e, s2) \<Rightarrow> (Inl e, s2)
              | (Inr annotated, s2) \<Rightarrow>
                  (Inr (\<lparr>address = address wallet, privateKey = privateKey wallet,
                         ethersInstance = ethersInstance wallet,
                         proxy = proxyAgent, proxyString = Some proxyStr, proxyIp = ip\<rparr>
                        # annotated), s2)))"

definition withoutProxy :: "'i wallet \<Rightarrow> 'i walletData" where
  "withoutProxy wallet =
     \<lparr>address = address wallet, privateKey = privateKey wallet,
      ethersInstance = ethersInstance wallet,
      proxy = None, proxyString = None, proxyIp = None\<rparr>"

text \<open>\<open>proxies\<close> is the list \<^verbatim>\<open>readProxies()\<close> returns (empty when the file is missing).\<close>

definition assignProxiesToWallets ::
  "config \<Rightarrow> 'w env \<Rightarrow> string list \<Rightarrow> 'i wallet list \<Rightarrow> ('w, 'i walletData list) prog" where
  "assignProxiesToWallets cfg env proxies wallets =
     (if \<not> useProxy cfg then returns (map withoutProxy wallets)
      else if length proxies = 0 then returns (map withoutProxy wallets)
      else assignFrom env proxies 0 wallets)"

section \<open>index.js\<close>

definition processWallet :: "config \<Rightarrow> 'w env \<Rightarrow> 'i walletData \<Rightarrow> ('w, bool) prog" where
  "processWallet cfg env walletData =
     tryCatch
       (andThen (getLeaderboardInfo cfg env walletData) (\<lambda>leaderboardInfo.
        andThen
          (if scanEnabled cfg
           then tryCatch
                  (if truthy (hasDoneDailyScan leaderboardInfo) \<and> \<not> forceRescan cfg
                   then returns ()
                   else andThen
                          (performScanWorkflow cfg env walletData (forceRescan cfg)
                             (Some leaderboardInfo))
                          (\<lambda>result. returns ()))
                  (\<lambda>error. returns ())
           else returns ()) (\<lambda>_.
        returns True)))
       (\<lambda>error. returns False)"

text \<open>
  The loop of \<open>processAllWallets\<close> over the wallets still to process; the jittered sleep is
  skipped after the last one.
\<close>

fun processEach ::
  "config \<Rightarrow> 'w env \<Rightarrow> 'i walletData list \<Rightarrow> nat \<Rightarrow> ('w, nat) prog" where
  "processEach cfg env [] successCount s = (Inr successCount, s)"
| "processEach cfg env (walletData # rest) successCount s =
     (case processWallet cfg env walletData s of
        (Inl e, s1) \<Rightarrow> (Inl e, s1)
      | (Inr success, s1) \<Rightarrow>
          processEach cfg env rest (if success then successCount + 1 else successCount)
            (if rest \<noteq> []
             then (case getRandomDelay env (delayBetweenWallets cfg) (world s1) of
                     (delay, w2) \<Rightarrow> slept delay (s1\<lparr>world := w2\<rparr>))
             else s1))"

text \<open>
  \<open>processAllWallets\<close> returns nothing; its result here is the pair it logs in
  \<^verbatim>\<open>All wallets processed. Success: ${successCount}/${walletsWithProxies.length}\<close>, or
  \<open>None\<close> when it returns early or catches an error. \<open>wallets\<close> is what
  \<^verbatim>\<open>wallet.getWallets()\<close> returned.
\<close>

definition processAllWallets ::
  "config \<Rightarrow> 'w env \<Rightarrow> string list \<Rightarrow> 'i wallet list \<Rightarrow> ('w, (nat \<times> nat) option) prog" where
  "processAllWallets cfg env proxies wallets =
     tryCatch
       (if length wallets = 0 then returns None
        else andThen (assignProxiesToWallets cfg env proxies wallets) (\<lambda>walletsWithProxies.
             andThen (processEach cfg env walletsWithProxies 0) (\<lambda>successCount.
             returns (Some (successCount, length walletsWithProxies)))))
       (\<lambda>error. returns None)"

section \<open>The accepted proxy shapes, in the words of the specification\<close>

text \<open>
  Section 4.1 of the specification accepts four textual shapes: a full URL
  \<^verbatim>\<open>scheme://[user:pass@]host:port\<close> with scheme \<^verbatim>\<open>http\<close>, \<^verbatim>\<open>https\<close>, \<^verbatim>\<open>socks\<close>,
  \<^verbatim>\<open>socks4\<close> or \<^verbatim>\<open>socks5\<close>, a bare \<^verbatim>\<open>user:pass@host:port\<close>, and a bare \<^verbatim>\<open>host:port\<close>;
  the port of a descriptor is a 16-bit unsigned number. These predicates follow those
  words, not the code.
\<close>

definition specValidPort :: "string \<Rightarrow> bool" where
  "specValidPort p \<longleftrightarrow>
     p \<noteq> [] \<and> list_all (\<lambda>c. c \<in> set ''0123456789'') p
       \<and> foldl (\<lambda>n c. 10 * n + (of_char c - 48)) (0::nat) p \<le> 65535"

definition specHostPort :: "string \<Rightarrow> bool" where
  "specHostPort str \<longleftrightarrow>
     (case splitOn (CHR '':'') str of
        [h, p] \<Rightarrow> h \<noteq> [] \<and> \<not> includesChar (CHR ''@'') h \<and> specValidPort p
      | _ \<Rightarrow> False)"

definition specUserPassHostPort :: "string \<Rightarrow> bool" where
  "specUserPassHostPort str \<longleftrightarrow>
     (case splitOn (CHR ''@'') str of
        [userPass, hostPort] \<Rightarrow> length (splitOn (CHR '':'') userPass) = 2 \<and> specHostPort hostPort
      | _ \<Rightarrow> False)"

definition specSchemes :: "string list" where
  "specSchemes = [''http'', ''https'', ''socks'', ''socks4'', ''socks5'']"

definition specAcceptedShape :: "string \<Rightarrow> bool" where
  "specAcceptedShape str \<longleftrightarrow>
     list_ex (\<lambda>scheme. startsWith (scheme @ ''://'') str
                \<and> (specHostPort (drop (length scheme + 3) str)
                     \<or> specUserPassHostPort (drop (length scheme + 3) str))) specSchemes
     \<or> specUserPassHostPort str \<or> specHostPort str"

text \<open>The prefix tests that send a proxy string to the \<^verbatim>\<open>URL\<close> class.\<close>

definition hasScheme :: "string \<Rightarrow> bool" where
  "hasScheme str \<longleftrightarrow>
     startsWith ''socks://'' str \<or> startsWith ''socks4://'' str \<or> startsWith ''socks5://'' str
       \<or> startsWith ''http://'' str \<or> startsWith ''https://'' str"

section \<open>The URL class on plain proxy URLs\<close>

text \<open>
  The \<^verbatim>\<open>URL\<close> class belongs to the runtime, not to the repository. For a string
  \<^verbatim>\<open>scheme://[user:pass@]host:port\<close> whose parts are plain (a lower-case host name or a
  dotted address, a port in canonical decimal form, credentials without reserved
  characters) the URL Standard reports the parts as they are written, except for one: the
  port is reported as the empty string when it is the default port of the scheme, which is
  80 for \<^verbatim>\<open>http\<close> and 443 for \<^verbatim>\<open>https\<close>; the three socks schemes have no default port.
  \<open>plainProxyURL\<close> writes such a string and \<open>standardURL\<close> is that answer.
\<close>

definition defaultPort :: "string \<Rightarrow> string option" where
  "defaultPort scheme =
     (if scheme = ''http'' then Some ''80'' else if scheme = ''https'' then Some ''443'' else None)"

definition plainProxyURL :: "string \<Rightarrow> string \<Rightarrow> string \<Rightarrow> string \<Rightarrow> string \<Rightarrow> string" where
  "plainProxyURL scheme user pass h p =
     scheme @ ''://'' @ (if user = [] \<and> pass = [] then [] else user @ '':'' @ pass @ ''@'')
       @ h @ '':'' @ p"

definition standardURL :: "string \<Rightarrow> string \<Rightarrow> string \<Rightarrow> string \<Rightarrow> string \<Rightarrow> url" where
  "standardURL scheme user pass h p =
     \<lparr>urlProtocol = scheme @ '':'', urlUsername = user, urlPassword = pass, urlHostname = h,
      urlPort = (if defaultPort scheme = Some p then [] else p)\<rparr>"

section \<open>A small remote platform to run the program against\<close>

text \<open>
  The world is the list of addresses whose scan the platform has credited. The platform
  refuses tracking registration for \<^verbatim>\<open>0xB2\<close> with 404, answers the scan request of
  \<^verbatim>\<open>0xC3\<close> with 500 although it credits the scan, has no leaderboard for \<^verbatim>\<open>0xE5\<close>,
  answers the scan request of \<^verbatim>\<open>0xF6\<close> with 500 and credits its points without ever
  setting its daily-scan flag, accepts the scan request of \<^verbatim>\<open>0xD7\<close> without crediting
  anything, and serves every other request.
\<close>

definition httpError :: "nat \<Rightarrow> jserror" where
  "httpError c = \<lparr>code = Some ''ERR_BAD_REQUEST'', status = Some c, message = ''Request failed''\<rparr>"

definition emptyResponse :: response where
  "emptyResponse = \<lparr>trackingId = None, personalPoints = None, hasDoneDailyScan = None\<rparr>"

definition demoHttpPost ::
  "axiosConfig \<Rightarrow> string \<Rightarrow> body \<Rightarrow> string list \<Rightarrow> (jserror + response option) \<times> string list" where
  "demoHttpPost client path data credited =
     (if path = ''/api/hooks/get-tracking-id/'' then
        (if map_of data ''address'' = Some (JString ''0xB2'') then (Inl (httpError 404), credited)
         else (Inr (Some (emptyResponse\<lparr>trackingId := Some ''t-1''\<rparr>)), credited))
      else if path = ''/api/hooks/get-leaderboard-info/'' then
        (case map_of data ''address'' of
           Some (JString a) \<Rightarrow>
             if a = ''0xE5'' then (Inl (httpError 500), credited)
             else (Inr (Some \<lparr>trackingId = None,
                              personalPoints = Some (if a \<in> set credited then 150 else 100),
                              hasDoneDailyScan = Some (a \<in> set credited \<and> a \<noteq> ''0xF6'')\<rparr>),
                   credited)
         | _ \<Rightarrow> (Inl (httpError 400), credited))
      else if path = ''/api/hooks/get-basic-dashboard/'' then (Inr (Some emptyResponse), credited)
      else if path = scanPath ''0xC3'' then (Inl (httpError 500), ''0xC3'' # credited)
      else if path = scanPath ''0xF6'' then (Inl (httpError 500), ''0xF6'' # credited)
      else if path = scanPath ''0xD7'' then (Inr (Some emptyResponse), credited)
      else if startsWith ''/api/addresses/'' path then
        (Inr (Some emptyResponse), takeWhile (\<lambda>c. c \<noteq> CHR ''/'') (drop 15 path) # credited)
      else (Inl (httpError 404), credited))"

definition demoURL :: "string \<Rightarrow> jserror + url" where
  "demoURL str =
     (if str = ''socks5://u:p@10.0.0.2:1080''
      then Inr (standardURL ''socks5'' ''u'' ''p'' ''10.0.0.2'' ''1080'')
      else if str = ''http://proxy.example:80''
      then Inr (standardURL ''http'' [] [] ''proxy.example'' ''80'')
      else Inl (newError ''Invalid URL''))"

definition demoEnv :: "string list env" where
  "demoEnv =
     \<lparr>httpPost = demoHttpPost,
      uuidv4 = (\<lambda>w. (''req-1'', w)),
      ipify = (\<lambda>a w. (Inr \<lparr>ipStatus = 200, ipData = Some ''203.0.113.7''\<rparr>, w)),
      newURL = demoURL,
      newSocksProxyAgent = (\<lambda>u. Inr (SocksProxyAgent u)),
      newHttpsProxyAgent = (\<lambda>u. Inr (HttpsProxyAgent u)),
      getRandomDelay = (\<lambda>d w. (d, w))\<rparr>"

definition demoConfig :: config where
  "demoConfig =
     \<lparr>useProxy = True, maxRetries = 1, retryDelay = 100, delayBetweenWallets = 1000,
      baseUrl = ''https://platform.example'', chainId = 1, requestTimeout = 30000,
      headers = [(''Accept'', ''application/json'')], scanEnabled = True, forceRescan = False\<rparr>"

definition demoWallet :: "string \<Rightarrow> unit wallet" where
  "demoWallet a = \<lparr>address = a, privateKey = ''key-of-'' @ a, ethersInstance = ()\<rparr>"

definition demoProxies :: "string list" where
  "demoProxies = [''10.0.0.1:8080'', ''socks5://u:p@10.0.0.2:1080'']"

definition demoWallets :: "unit wallet list" where
  "demoWallets = [demoWallet ''0xA1'', demoWallet ''0xB2'', demoWallet ''0xC3'']"

definition start :: "string list \<Rightarrow> string list sys" where
  "start credited = \<lparr>world = credited, trace = []\<rparr>"

text \<open>
  \<open>extendsBy L s s1\<close>: the run from \<open>s\<close> to \<open>s1\<close> kept the trace it found and appended
  only sleeps and invocations labelled in \<open>L\<close>.
\<close>

definition extendsBy :: "string set \<Rightarrow> 'w sys \<Rightarrow> 'w sys \<Rightarrow> bool" where
  "extendsBy L s s1 \<longleftrightarrow>
     (\<exists>es. trace s1 = trace s @ es \<and> (\<forall>l. Call l \<in> set es \<longrightarrow> l \<in> L))"

text \<open>\<open>grows m\<close>: whatever \<open>m\<close> does, it keeps the trace it found and only appends to it.\<close>

definition grows :: "('w, 'a) prog \<Rightarrow> bool" where
  "grows m \<longleftrightarrow> (\<forall>s. extendsBy UNIV s (snd (m s)))"

text \<open>Whether a result is a value rather than a raised error.\<close>

definition succeeded :: "jserror + 'a \<Rightarrow> bool" where
  "succeeded r \<longleftrightarrow> (case r of Inl e \<Rightarrow> False | Inr v \<Rightarrow> True)"

section \<open>The turns of a batch\<close>

text \<open>
  \<open>afterWallet\<close> is the state one wallet's turn leaves behind: the state after
  \<open>processWallet\<close>, followed by the jittered sleep when more wallets wait. \<open>turns\<close> lists
  the states in which the turns of a wallet list start, each one left by the turn before,
  \<open>finish\<close> is the state after the last turn, and \<open>counted\<close> is the number of wallets
  whose own leaderboard query succeeds in the state of their turn.
\<close>

definition afterWallet :: "config \<Rightarrow> 'w env \<Rightarrow> 'i walletData \<Rightarrow> bool \<Rightarrow> 'w sys \<Rightarrow> 'w sys" where
  "afterWallet cfg env walletData waiting s =
     (case processWallet cfg env walletData s of
        (r, s1) \<Rightarrow>
          if waiting
          then (case getRandomDelay env (delayBetweenWallets cfg) (world s1) of
                  (delay, w2) \<Rightarrow> slept delay (s1\<lparr>world := w2\<rparr>))
          else s1)"

fun turns :: "config \<Rightarrow> 'w env \<Rightarrow> 'i walletData list \<Rightarrow> 'w sys \<Rightarrow> 'w sys list" where
  "turns cfg env [] s = []"
| "turns cfg env (walletData # rest) s =
     s # turns cfg env rest (afterWallet cfg env walletData (rest \<noteq> []) s)"

fun finish :: "config \<Rightarrow> 'w env \<Rightarrow> 'i walletData list \<Rightarrow> 'w sys \<Rightarrow> 'w sys" where
  "finish cfg env [] s = s"
| "finish cfg env (walletData # rest) s =
     finish cfg env rest (afterWallet cfg env walletData (rest \<noteq> []) s)"

definition counted :: "config \<Rightarrow> 'w env \<Rightarrow> 'i walletData list \<Rightarrow> 'w sys \<Rightarrow> nat" where
  "counted cfg env wds s =
     length (filter (\<lambda>(walletData, turn). succeeded (fst (getLeaderboardInfo cfg env walletData turn)))
               (zip wds (turns cfg env wds s)))"

text \<open>The events a run appended to the trace it started with.\<close>

definition newEvents :: "'w sys \<Rightarrow> 'w sys \<Rightarrow> event list" where
  "newEvents s s1 = drop (length (trace s)) (trace s1)"

text \<open>
  \<open>ClientRejected(c)\<close>: an HTTP error response with a 4xx status other than 429.
\<close>

definition clientRejected :: "nat \<Rightarrow> jserror \<Rightarrow> bool" where
  "clientRejected c e \<longleftrightarrow> status e = Some c \<and> 400 \<le> c \<and> c < 500 \<and> c \<noteq> 429"

text \<open>Three operations that fail in the same way on every call, on a world without state.\<close>

definition always429 :: "unit \<Rightarrow> (jserror + unit) \<times> unit" where
  "always429 w =
     (Inl \<lparr>code = Some ''ERR_BAD_REQUEST'', status = Some 429,
           message = ''Request failed with status code 429''\<rparr>, w)"

definition always404 :: "unit \<Rightarrow> (jserror + unit) \<times> unit" where
  "always404 w =
     (Inl \<lparr>code = Some ''ERR_BAD_REQUEST'', status = Some 404,
           message = ''Request failed with status code 404''\<rparr>, w)"

definition alwaysReset :: "unit \<Rightarrow> (jserror + unit) \<times> unit" where
  "alwaysReset w =
     (Inl \<lparr>code = Some ''ECONNRESET'', status = None, message = ''socket hang up''\<rparr>, w)"

definition idle :: "unit sys" where
  "idle = \<lparr>world = (), trace = []\<rparr>"

section \<open>Properties of withRetry\<close>

lemma attempts_append: "attempts (xs @ ys) = attempts xs + attempts ys"
  by (induction xs rule: attempts.induct) auto

lemma totalSlept_append: "totalSlept (xs @ ys) = totalSlept xs + totalSlept ys"
  by (induction xs rule: totalSlept.induct) auto

lemma attempts_failedAttempts: "attempts (failedAttempts l delay a k) = k"
  by (induction k arbitrary: a) auto

lemma totalSlept_failedAttempts_const:
  "totalSlept (failedAttempts l (\<lambda>n. c) a k) = k * c"
  by (induction k arbitrary: a) auto

lemma retryLoop_always_fails:
  assumes fails: "alwaysFailsWith op P"
    and delay: "\<And>e n. P e \<Longrightarrow> retryDelayFor e d n = delay n"
  shows "a + k = m + 1 \<Longrightarrow>
         retryLoop (invoke l op) m d a s =
           (fst (op (afterRuns op k (world s))),
            \<lparr>world = afterRuns op (Suc k) (world s),
             trace = trace s @ failedAttempts l delay a k @ [Call l]\<rparr>)"
proof (induction k arbitrary: a s)
  case 0
  from fails obtain e w1 where op: "op (world s) = (Inl e, w1)"
    unfolding alwaysFailsWith_def by blast
  from 0 have "a > m" by simp
  with op show ?case
    by (subst retryLoop.simps) (simp add: invoke_def)
next
  case (Suc k)
  from fails obtain e w1 where op: "op (world s) = (Inl e, w1)" and P: "P e"
    unfolding alwaysFailsWith_def by blast
  from Suc.prems have le: "\<not> a > m" and next_a: "(a + 1) + k = m + 1" by simp_all
  let ?s1 = "slept (delay a) \<lparr>world = w1, trace = trace s @ [Call l]\<rparr>"
  have "retryLoop (invoke l op) m d a s = retryLoop (invoke l op) m d (a + 1) ?s1"
    using op le delay [OF P] by (subst retryLoop.simps) (simp add: invoke_def)
  also have "\<dots> = (fst (op (afterRuns op k (world ?s1))),
            \<lparr>world = afterRuns op (Suc k) (world ?s1),
             trace = trace ?s1 @ failedAttempts l delay (a + 1) k @ [Call l]\<rparr>)"
    by (rule Suc.IH [OF next_a])
  finally show ?case using op by (simp add: slept_def)
qed

lemma withRetry_always_fails:
  assumes "alwaysFailsWith op P"
    and "\<And>e n. P e \<Longrightarrow> retryDelayFor e d n = delay n"
  shows "withRetry (invoke l op) m d s =
           (fst (op (afterRuns op m (world s))),
            \<lparr>world = afterRuns op (Suc m) (world s),
             trace = trace s @ failedAttempts l delay 1 m @ [Call l]\<rparr>)"
  unfolding withRetry_def
  by (rule retryLoop_always_fails [OF assms(1)]) (simp_all add: assms(2))

lemma always_fails_raises:
  "alwaysFailsWith op P \<Longrightarrow> \<exists>e. fst (op w) = Inl e \<and> P e"
  unfolding alwaysFailsWith_def by (metis fst_conv)

lemma retryDelayFor_rateLimited: "rateLimited e \<Longrightarrow> retryDelayFor e d n = d * 2"
  by (simp add: rateLimited_def retryDelayFor_def)

lemma retryDelayFor_other: "\<not> rateLimited e \<Longrightarrow> retryDelayFor e d n = d + n * 500"
  by (auto simp: rateLimited_def retryDelayFor_def)

lemma clientRejected_not_rateLimited: "clientRejected c e \<Longrightarrow> \<not> rateLimited e"
  by (simp add: clientRejected_def rateLimited_def)

lemma newEvents_append [simp]:
  "newEvents s \<lparr>world = w, trace = trace s @ es\<rparr> = es"
  by (simp add: newEvents_def)

text \<open>
  C3. An operation that fails with HTTP 429 on every attempt is invoked exactly
  \<open>maxAttempts + 1\<close> times, the error raised is the one of the last invocation, and the
  time slept is \<open>maxAttempts * (baseDelay * 2)\<close> in total. An operation that always fails
  in any other way is followed, after failed attempt \<open>n\<close>, by a sleep of
  \<open>baseDelay + n * 500\<close>.
\<close>

theorem withRetry_rate_limited_backoff:
  "(alwaysFailsWith op rateLimited \<longrightarrow>
      attempts (newEvents s (snd (withRetry (invoke l op) maxAttempts baseDelay s)))
        = maxAttempts + 1
      \<and> fst (withRetry (invoke l op) maxAttempts baseDelay s)
        = fst (op (afterRuns op maxAttempts (world s)))
      \<and> (\<exists>e. fst (withRetry (invoke l op) maxAttempts baseDelay s) = Inl e \<and> rateLimited e)
      \<and> totalSlept (newEvents s (snd (withRetry (invoke l op) maxAttempts baseDelay s)))
        \<ge> maxAttempts * (baseDelay * 2))
   \<and> (alwaysFailsWith op (\<lambda>e. \<not> rateLimited e) \<longrightarrow>
      newEvents s (snd (withRetry (invoke l op) maxAttempts baseDelay s))
        = failedAttempts l (\<lambda>n. baseDelay + n * 500) 1 maxAttempts @ [Call l])"
proof (intro conjI impI)
  assume fails: "alwaysFailsWith op rateLimited"
  note run = withRetry_always_fails [where delay = "\<lambda>n. baseDelay * 2" and d = baseDelay
      and l = l and m = maxAttempts and s = s, OF fails retryDelayFor_rateLimited]
  show "attempts (newEvents s (snd (withRetry (invoke l op) maxAttempts baseDelay s)))
        = maxAttempts + 1"
    by (simp add: run attempts_append attempts_failedAttempts)
  show "fst (withRetry (invoke l op) maxAttempts baseDelay s)
        = fst (op (afterRuns op maxAttempts (world s)))"
    by (simp add: run)
  show "\<exists>e. fst (withRetry (invoke l op) maxAttempts baseDelay s) = Inl e \<and> rateLimited e"
    using always_fails_raises [OF fails] by (simp add: run)
  show "totalSlept (newEvents s (snd (withRetry (invoke l op) maxAttempts baseDelay s)))
        \<ge> maxAttempts * (baseDelay * 2)"
    by (simp add: run totalSlept_append totalSlept_failedAttempts_const)
next
  assume fails: "alwaysFailsWith op (\<lambda>e. \<not> rateLimited e)"
  show "newEvents s (snd (withRetry (invoke l op) maxAttempts baseDelay s))
        = failedAttempts l (\<lambda>n. baseDelay + n * 500) 1 maxAttempts @ [Call l]"
    by (simp add: withRetry_always_fails [where delay = "\<lambda>n. baseDelay + n * 500"
          and d = baseDelay, OF fails retryDelayFor_other])
qed

lemma always429_rateLimited: "alwaysFailsWith always429 rateLimited"
  by (simp add: alwaysFailsWith_def always429_def rateLimited_def)

lemma alwaysReset_other: "alwaysFailsWith alwaysReset (\<lambda>e. \<not> rateLimited e)"
  by (simp add: alwaysFailsWith_def alwaysReset_def rateLimited_def)

theorem withRetry_rate_limited_backoff_witness:
  "alwaysFailsWith always429 rateLimited
   \<and> attempts (newEvents idle (snd (withRetry (invoke ''op'' always429) 2 5000 idle))) = 3
   \<and> totalSlept (newEvents idle (snd (withRetry (invoke ''op'' always429) 2 5000 idle)))
       \<ge> 2 * (5000 * 2)
   \<and> alwaysFailsWith alwaysReset (\<lambda>e. \<not> rateLimited e)
   \<and> newEvents idle (snd (withRetry (invoke ''op'' alwaysReset) 2 5000 idle))
       = [Call ''op'', Sleep 5500, Call ''op'', Sleep 6000, Call ''op'']"
proof -
  have a: "failedAttempts ''op'' (\<lambda>n. 5000 + n * 500) 1 2 = [Call ''op'', Sleep 5500, Call ''op'', Sleep 6000]"
    by (simp add: numeral_2_eq_2)
  show ?thesis
    using withRetry_rate_limited_backoff [of always429 idle "''op''" 2 5000]
      withRetry_rate_limited_backoff [of alwaysReset idle "''op''" 2 5000]
      always429_rateLimited alwaysReset_other a
    by simp
qed

text \<open>
  C2, as the code has it. \<open>withRetry\<close> has no non-retryable kind: the last branch of its
  \<^verbatim>\<open>catch\<close> block handles every remaining error by logging, sleeping
  \<^verbatim>\<open>delayMs + attempt * 500\<close> and trying again. An operation that always fails with
  \<open>ClientRejected(c)\<close> (404 included) is therefore invoked \<open>maxAttempts + 1\<close> times, with a
  sleep of \<open>baseDelay + n * 500\<close> after failed attempt \<open>n\<close>, before its last error is raised.
\<close>

theorem withRetry_client_rejected_retried:
  assumes "alwaysFailsWith op (clientRejected c)"
  shows "attempts (newEvents s (snd (withRetry (invoke l op) maxAttempts baseDelay s)))
           = maxAttempts + 1
         \<and> newEvents s (snd (withRetry (invoke l op) maxAttempts baseDelay s))
           = failedAttempts l (\<lambda>n. baseDelay + n * 500) 1 maxAttempts @ [Call l]
         \<and> fst (withRetry (invoke l op) maxAttempts baseDelay s)
           = fst (op (afterRuns op maxAttempts (world s)))
         \<and> (\<exists>e. fst (withRetry (invoke l op) maxAttempts baseDelay s) = Inl e
                \<and> clientRejected c e)"
proof -
  note run = withRetry_always_fails [where delay = "\<lambda>n. baseDelay + n * 500"
      and d = baseDelay and l = l and m = maxAttempts and s = s,
      OF assms retryDelayFor_other [OF clientRejected_not_rateLimited]]
  show ?thesis
    using always_fails_raises [OF assms]
    by (simp add: run attempts_append attempts_failedAttempts)
qed

lemma always404_clientRejected: "alwaysFailsWith always404 (clientRejected 404)"
  by (simp add: alwaysFailsWith_def always404_def clientRejected_def)

theorem withRetry_client_rejected_retried_witness:
  "alwaysFailsWith always404 (clientRejected 404)
   \<and> attempts (newEvents idle (snd (withRetry (invoke ''op'' always404) 5 5000 idle))) = 6"
  using withRetry_client_rejected_retried [OF always404_clientRejected, of idle "''op''" 5 5000]
    always404_clientRejected
  by (simp add: attempts_append attempts_failedAttempts)

text \<open>
  C2, as stated, fails: with \<open>maxAttempts = 1\<close> an operation that always answers 404 is
  invoked twice, and 5500 ms are slept between the two attempts.
\<close>

theorem withRetry_404_single_attempt_counterexample:
  "newEvents idle (snd (withRetry (invoke ''op'' always404) 1 5000 idle))
     = [Call ''op'', Sleep 5500, Call ''op'']
   \<and> \<not> (attempts (newEvents idle (snd (withRetry (invoke ''op'' always404) 1 5000 idle))) = 1
        \<and> totalSlept (newEvents idle (snd (withRetry (invoke ''op'' always404) 1 5000 idle))) = 0)"
  by (simp add: withRetry_def retryLoop.simps invoke_def always404_def idle_def slept_def
      retryDelayFor_def newEvents_def)

section \<open>Properties of the client, the leaderboard query and the scan workflow\<close>

lemmas prog_defs = returns_def raises_def andThen_def tryCatch_def

lemma extendsBy_refl: "extendsBy L s s"
  by (simp add: extendsBy_def)

lemma extendsBy_trans:
  "extendsBy L s s1 \<Longrightarrow> extendsBy M s1 s2 \<Longrightarrow> extendsBy (L \<union> M) s s2"
  unfolding extendsBy_def by fastforce

lemma extendsBy_newEvents:
  "extendsBy L s s1 \<Longrightarrow> l \<notin> L \<Longrightarrow> Call l \<notin> set (newEvents s s1)"
  unfolding extendsBy_def newEvents_def by auto

lemma retryLoop_extends:
  "extendsBy {l} s (snd (retryLoop (invoke l op) m d a s))"
proof (induction "invoke l op" m d a s rule: retryLoop.induct)
  case (1 m d a s)
  obtain r w1 where op: "op (world s) = (r, w1)" by (cases "op (world s)")
  let ?s1 = "\<lparr>world = w1, trace = trace s @ [Call l]\<rparr>"
  have inv: "invoke l op s = (r, ?s1)" by (simp add: invoke_def op)
  show ?case
  proof (cases r)
    case (Inr v)
    then show ?thesis
      by (subst retryLoop.simps) (simp add: inv extendsBy_def)
  next
    case (Inl e)
    show ?thesis
    proof (cases "a > m")
      case True
      with Inl show ?thesis
        by (subst retryLoop.simps) (simp add: inv extendsBy_def)
    next
      case False
      let ?s2 = "slept (retryDelayFor e d a) ?s1"
      have step: "retryLoop (invoke l op) m d a s = retryLoop (invoke l op) m d (a + 1) ?s2"
        using Inl False by (subst retryLoop.simps) (simp add: inv)
      have "extendsBy {l} ?s2 (snd (retryLoop (invoke l op) m d (a + 1) ?s2))"
        using "1.hyps" [OF inv [symmetric] Inl False] by simp
      moreover have "extendsBy {l} s ?s2"
        by (simp add: extendsBy_def slept_def)
      ultimately show ?thesis
        using extendsBy_trans [of "{l}" s ?s2 "{l}"] by (simp add: step)
    qed
  qed
qed

lemma post_extends: "extendsBy {path} s (snd (post cfg env path data opts wd s))"
proof -
  obtain rid w1 where u: "uuidv4 env (world s) = (rid, w1)" by (cases "uuidv4 env (world s)")
  have "extendsBy {path} (s\<lparr>world := w1\<rparr>) (snd (post cfg env path data opts wd s))"
    using retryLoop_extends [of path "s\<lparr>world := w1\<rparr>"]
    by (simp add: post_def u withRetry_def)
  then show ?thesis by (simp add: extendsBy_def)
qed

lemma getTrackingId_extends:
  "extendsBy {''/api/hooks/get-tracking-id/''} s (snd (getTrackingId cfg env wd s))"
proof -
  have "snd (getTrackingId cfg env wd s) =
        snd (post cfg env ''/api/hooks/get-tracking-id/''
             [(''address'', JString (address wd)), (''chainId'', JNumber (chainId cfg))]
             noOptions wd s)"
    by (simp add: getTrackingId_def prog_defs split: prod.splits sum.splits option.splits)
  then show ?thesis by (simp add: post_extends)
qed

lemma getLeaderboardInfo_extends:
  "extendsBy {''/api/hooks/get-leaderboard-info/''} s (snd (getLeaderboardInfo cfg env wd s))"
proof -
  have "snd (getLeaderboardInfo cfg env wd s) =
        snd (post cfg env ''/api/hooks/get-leaderboard-info/''
             [(''address'', JString (address wd)), (''chainId'', JNumber (chainId cfg)),
              (''includeLeaderboard'', JBoolean False), (''skipCache'', JBoolean True)]
             noOptions wd s)"
    by (simp add: getLeaderboardInfo_def prog_defs split: prod.splits sum.splits option.splits)
  then show ?thesis by (simp add: post_extends)
qed

lemmas run_defs = prog_defs post_def withRetry_def retryLoop.simps invoke_def slept_def sleep_def
  retryDelayFor_def createApiClient_def noOptions_def newError_def
  getLeaderboardInfo_def getTrackingId_def getBasicDashboard_def performWalletScan_def
  scanPath_def startsWith_def

lemmas demo_defs = demoEnv_def demoHttpPost_def demoConfig_def demoWallet_def withoutProxy_def
  start_def httpError_def emptyResponse_def

lemma demo_leaderboard_fails: "getLeaderboardInfo demoConfig demoEnv (withoutProxy (demoWallet ''0xE5'')) (start [])
  = (Inl (httpError 500), \<lparr>world = [], trace = [Call ''/api/hooks/get-leaderboard-info/'', Sleep 600,
        Call ''/api/hooks/get-leaderboard-info/'']\<rparr>)"
  by (simp add: run_defs demo_defs)

lemma demo_leaderboard_done: "getLeaderboardInfo demoConfig demoEnv (withoutProxy (demoWallet ''0xD4'')) (start [''0xD4''])
  = (Inr \<lparr>trackingId = None, personalPoints = Some 150, hasDoneDailyScan = Some True\<rparr>,
     \<lparr>world = [''0xD4''], trace = [Call ''/api/hooks/get-leaderboard-info/'']\<rparr>)"
  by (simp add: run_defs demo_defs)

text \<open>
  C9. \<open>checkDailyScanStatus\<close> never raises: when the leaderboard query raises, it returns
  \<^verbatim>\<open>false\<close>; when the query returns a snapshot, it returns whether the snapshot's
  \<^verbatim>\<open>hasDoneDailyScan\<close> is \<^verbatim>\<open>true\<close> (\<^verbatim>\<open>false\<close> when the property is absent).
\<close>

theorem checkDailyScanStatus_never_raises:
  "(\<exists>b. fst (checkDailyScanStatus cfg env wd s) = Inr b)
   \<and> (\<forall>e s1. getLeaderboardInfo cfg env wd s = (Inl e, s1)
         \<longrightarrow> checkDailyScanStatus cfg env wd s = (Inr False, s1))
   \<and> (\<forall>info s1. getLeaderboardInfo cfg env wd s = (Inr info, s1)
         \<longrightarrow> checkDailyScanStatus cfg env wd s = (Inr (hasDoneDailyScan info = Some True), s1))"
  by (auto simp: checkDailyScanStatus_def prog_defs truthy_def split: prod.splits sum.splits)

theorem checkDailyScanStatus_never_raises_witness:
  "checkDailyScanStatus demoConfig demoEnv (withoutProxy (demoWallet ''0xE5'')) (start [])
     = (Inr False, \<lparr>world = [], trace = [Call ''/api/hooks/get-leaderboard-info/'', Sleep 600,
        Call ''/api/hooks/get-leaderboard-info/'']\<rparr>)
   \<and> checkDailyScanStatus demoConfig demoEnv (withoutProxy (demoWallet ''0xD4'')) (start [''0xD4''])
     = (Inr True, \<lparr>world = [''0xD4''], trace = [Call ''/api/hooks/get-leaderboard-info/'']\<rparr>)"
  using checkDailyScanStatus_never_raises
          [of demoConfig demoEnv "withoutProxy (demoWallet ''0xE5'')" "start []"]
        checkDailyScanStatus_never_raises
          [of demoConfig demoEnv "withoutProxy (demoWallet ''0xD4'')" "start [''0xD4'']"]
  by (simp add: demo_leaderboard_fails demo_leaderboard_done)

text \<open>
  C1. A run that reaches the action submission (tracking registered, snapshot \<open>info\<close>
  obtained and not skipped, session primed) goes on to the verification whatever the
  submission returns or raises: it sleeps 2000 ms and queries the leaderboard again. With
  the post-wait snapshot \<open>updated\<close>, the workflow returns, without raising, a result whose
  \<^verbatim>\<open>success\<close> is true exactly when \<open>updated\<close> has \<^verbatim>\<open>hasDoneDailyScan = true\<close>, or both
  snapshots have \<^verbatim>\<open>personalPoints\<close> and those of \<open>updated\<close> are strictly greater than
  those of \<open>info\<close>.
\<close>

theorem performScanWorkflow_verifies_after_submission:
  assumes tracking: "getTrackingId cfg env wd s = (Inr t, s1)"
    and snapshot: "(case existing of Some i \<Rightarrow> returns i
                    | None \<Rightarrow> getLeaderboardInfo cfg env wd) s1 = (Inr info, s2)"
    and notSkipped: "\<not> (hasDoneDailyScan info = Some True \<and> \<not> forceScan \<and> \<not> forceRescan cfg)"
    and primed: "getBasicDashboard cfg env wd s2 = (Inr d, s3)"
    and submitted: "performWalletScan cfg env wd s3 = (r, s4)"
    and verified: "getLeaderboardInfo cfg env wd (slept 2000 s4) = (Inr updated, s5)"
  shows "performScanWorkflow cfg env wd forceScan existing s =
           (Inr (Verified (case r of Inl e \<Rightarrow> None | Inr x \<Rightarrow> Some x)
                   (hasDoneDailyScan updated = Some True
                    \<or> (\<exists>before after. personalPoints info = Some before
                           \<and> personalPoints updated = Some after \<and> before < after))), s5)"
proof -
  have points: "jsGreater (personalPoints updated) (personalPoints info)
      \<longleftrightarrow> (\<exists>before after. personalPoints info = Some before
             \<and> personalPoints updated = Some after \<and> before < after)"
    by (auto simp: jsGreater_def split: option.splits)
  show ?thesis
    unfolding points [symmetric] using assms
    by (cases r) (auto simp: performScanWorkflow_def prog_defs truthy_def sleep_def Let_def)
qed

theorem performScanWorkflow_verifies_after_submission_witness:
  "performScanWorkflow demoConfig demoEnv (withoutProxy (demoWallet ''0xF6'')) False None (start [])
     = (Inr (Verified None True),
        \<lparr>world = [''0xF6'', ''0xF6''], trace = [Call ''/api/hooks/get-tracking-id/'',
          Call ''/api/hooks/get-leaderboard-info/'', Call ''/api/hooks/get-basic-dashboard/'',
          Call ''/api/addresses/0xF6/queue-health/'', Sleep 600,
          Call ''/api/addresses/0xF6/queue-health/'', Sleep 2000,
          Call ''/api/hooks/get-leaderboard-info/'']\<rparr>)
   \<and> performScanWorkflow demoConfig demoEnv (withoutProxy (demoWallet ''0xD7'')) False None (start [])
     = (Inr (Verified (Some emptyResponse) False),
        \<lparr>world = [], trace = [Call ''/api/hooks/get-tracking-id/'',
          Call ''/api/hooks/get-leaderboard-info/'', Call ''/api/hooks/get-basic-dashboard/'',
          Call ''/api/addresses/0xD7/queue-health/'', Sleep 2000,
          Call ''/api/hooks/get-leaderboard-info/'']\<rparr>)"
proof -
  let ?T = "''/api/hooks/get-tracking-id/''"
  let ?L = "''/api/hooks/get-leaderboard-info/''"
  let ?D = "''/api/hooks/get-basic-dashboard/''"
  let ?before = "\<lparr>trackingId = None, personalPoints = Some 100, hasDoneDailyScan = Some False\<rparr>"
  let ?more = "\<lparr>trackingId = None, personalPoints = Some 150, hasDoneDailyScan = Some False\<rparr>"
  let ?s1 = "\<lparr>world = [], trace = [Call ?T]\<rparr> :: string list sys"
  let ?s2 = "\<lparr>world = [], trace = [Call ?T, Call ?L]\<rparr> :: string list sys"
  let ?s3 = "\<lparr>world = [], trace = [Call ?T, Call ?L, Call ?D]\<rparr> :: string list sys"
  have notSkipped: "\<not> (hasDoneDailyScan ?before = Some True \<and> \<not> False \<and> \<not> forceRescan demoConfig)"
    by simp
  have raised: "performScanWorkflow demoConfig demoEnv (withoutProxy (demoWallet ''0xF6'')) False None
        (start [])
     = (Inr (Verified None True),
        \<lparr>world = [''0xF6'', ''0xF6''], trace = [Call ?T, Call ?L, Call ?D,
          Call ''/api/addresses/0xF6/queue-health/'', Sleep 600,
          Call ''/api/addresses/0xF6/queue-health/'', Sleep 2000, Call ?L]\<rparr>)"
  proof -
    let ?wd = "withoutProxy (demoWallet ''0xF6'')"
    let ?Q = "''/api/addresses/0xF6/queue-health/''"
    let ?s4 = "\<lparr>world = [''0xF6'', ''0xF6''],
               trace = [Call ?T, Call ?L, Call ?D, Call ?Q, Sleep 600, Call ?Q]\<rparr>"
    let ?s5 = "\<lparr>world = [''0xF6'', ''0xF6''],
               trace = [Call ?T, Call ?L, Call ?D, Call ?Q, Sleep 600, Call ?Q, Sleep 2000,
                        Call ?L]\<rparr>"
    have tracking: "getTrackingId demoConfig demoEnv ?wd (start []) = (Inr ''t-1'', ?s1)"
      by (simp add: run_defs demo_defs)
    have snapshot: "(case None of Some i \<Rightarrow> returns i
                     | None \<Rightarrow> getLeaderboardInfo demoConfig demoEnv ?wd) ?s1 = (Inr ?before, ?s2)"
      by (simp add: run_defs demo_defs)
    have primed: "getBasicDashboard demoConfig demoEnv ?wd ?s2 = (Inr emptyResponse, ?s3)"
      by (simp add: run_defs demo_defs)
    have submitted: "performWalletScan demoConfig demoEnv ?wd ?s3 = (Inl (httpError 500), ?s4)"
      by (simp add: run_defs demo_defs)
    have verified: "getLeaderboardInfo demoConfig demoEnv ?wd (slept 2000 ?s4) = (Inr ?more, ?s5)"
      by (simp add: run_defs demo_defs)
    show ?thesis
      using performScanWorkflow_verifies_after_submission
              [OF tracking snapshot notSkipped primed submitted verified]
      by simp
  qed
  have unchanged: "performScanWorkflow demoConfig demoEnv (withoutProxy (demoWallet ''0xD7'')) False
        None (start [])
     = (Inr (Verified (Some emptyResponse) False),
        \<lparr>world = [], trace = [Call ?T, Call ?L, Call ?D,
          Call ''/api/addresses/0xD7/queue-health/'', Sleep 2000, Call ?L]\<rparr>)"
  proof -
    let ?wd = "withoutProxy (demoWallet ''0xD7'')"
    let ?Q = "''/api/addresses/0xD7/queue-health/''"
    let ?s4 = "\<lparr>world = [], trace = [Call ?T, Call ?L, Call ?D, Call ?Q]\<rparr> :: string list sys"
    let ?s5 = "\<lparr>world = [], trace = [Call ?T, Call ?L, Call ?D, Call ?Q, Sleep 2000, Call ?L]\<rparr>
               :: string list sys"
    have tracking: "getTrackingId demoConfig demoEnv ?wd (start []) = (Inr ''t-1'', ?s1)"
      by (simp add: run_defs demo_defs)
    have snapshot: "(case None of Some i \<Rightarrow> returns i
                     | None \<Rightarrow> getLeaderboardInfo demoConfig demoEnv ?wd) ?s1 = (Inr ?before, ?s2)"
      by (simp add: run_defs demo_defs)
    have primed: "getBasicDashboard demoConfig demoEnv ?wd ?s2 = (Inr emptyResponse, ?s3)"
      by (simp add: run_defs demo_defs)
    have submitted: "performWalletScan demoConfig demoEnv ?wd ?s3 = (Inr emptyResponse, ?s4)"
      by (simp add: run_defs demo_defs)
    have verified: "getLeaderboardInfo demoConfig demoEnv ?wd (slept 2000 ?s4) = (Inr ?before, ?s5)"
      by (simp add: run_defs demo_defs)
    show ?thesis
      using performScanWorkflow_verifies_after_submission
              [OF tracking snapshot notSkipped primed submitted verified]
      by simp
  qed
  from raised unchanged show ?thesis by simp
qed

text \<open>
  The verification step itself is not guarded: when the post-wait leaderboard query raises,
  the workflow raises that error.
\<close>

lemma performScanWorkflow_verification_raises:
  assumes "getTrackingId cfg env wd s = (Inr t, s1)"
    and "(case existing of Some i \<Rightarrow> returns i
          | None \<Rightarrow> getLeaderboardInfo cfg env wd) s1 = (Inr info, s2)"
    and "\<not> (hasDoneDailyScan info = Some True \<and> \<not> forceScan \<and> \<not> forceRescan cfg)"
    and "getBasicDashboard cfg env wd s2 = (Inr d, s3)"
    and "performWalletScan cfg env wd s3 = (r, s4)"
    and "getLeaderboardInfo cfg env wd (slept 2000 s4) = (Inl e, s5)"
  shows "performScanWorkflow cfg env wd forceScan existing s = (Inl e, s5)"
  using assms
  by (cases r) (auto simp: performScanWorkflow_def prog_defs truthy_def sleep_def Let_def)

text \<open>
  C7. When tracking is registered, the pre-check snapshot (supplied by the caller or
  fetched) has \<^verbatim>\<open>hasDoneDailyScan = true\<close>, and neither the \<^verbatim>\<open>forceScan\<close> argument nor
  \<^verbatim>\<open>config.scan.forceRescan\<close> is set, the workflow returns the skipped result, and the run
  has sent no request to the dashboard (session priming) or to the scan endpoint.
\<close>

theorem performScanWorkflow_skips_when_done:
  assumes tracking: "getTrackingId cfg env wd s = (Inr t, s1)"
    and snapshot: "(case existing of Some i \<Rightarrow> returns i
                    | None \<Rightarrow> getLeaderboardInfo cfg env wd) s1 = (Inr info, s2)"
    and already: "hasDoneDailyScan info = Some True"
    and unforced: "\<not> forceScan" "\<not> forceRescan cfg"
  shows "performScanWorkflow cfg env wd forceScan existing s = (Inr Skipped, s2)
         \<and> Call ''/api/hooks/get-basic-dashboard/'' \<notin> set (newEvents s s2)
         \<and> Call (scanPath (address wd)) \<notin> set (newEvents s s2)"
proof -
  have result: "performScanWorkflow cfg env wd forceScan existing s = (Inr Skipped, s2)"
    using assms by (simp add: performScanWorkflow_def prog_defs truthy_def)
  have "extendsBy {''/api/hooks/get-tracking-id/''} s s1"
    using getTrackingId_extends [of s cfg env wd] by (simp add: tracking)
  moreover have "extendsBy {''/api/hooks/get-leaderboard-info/''} s1 s2"
  proof (cases existing)
    case None
    then show ?thesis
      using getLeaderboardInfo_extends [of s1 cfg env wd] snapshot by simp
  next
    case (Some i)
    then show ?thesis using snapshot by (simp add: returns_def extendsBy_refl)
  qed
  ultimately have ext: "extendsBy ({''/api/hooks/get-tracking-id/''}
      \<union> {''/api/hooks/get-leaderboard-info/''}) s s2"
    by (rule extendsBy_trans)
  have "Call ''/api/hooks/get-basic-dashboard/'' \<notin> set (newEvents s s2)"
    by (rule extendsBy_newEvents [OF ext]) simp
  moreover have "Call (scanPath (address wd)) \<notin> set (newEvents s s2)"
    by (rule extendsBy_newEvents [OF ext]) (simp add: scanPath_def)
  ultimately show ?thesis using result by simp
qed

theorem performScanWorkflow_skips_when_done_witness:
  "performScanWorkflow demoConfig demoEnv (withoutProxy (demoWallet ''0xD4'')) False None
       (start [''0xD4''])
     = (Inr Skipped, \<lparr>world = [''0xD4''], trace = [Call ''/api/hooks/get-tracking-id/'',
          Call ''/api/hooks/get-leaderboard-info/'']\<rparr>)"
proof -
  let ?wd = "withoutProxy (demoWallet ''0xD4'')"
  let ?info = "\<lparr>trackingId = None, personalPoints = Some 150, hasDoneDailyScan = Some True\<rparr>"
  let ?s1 = "\<lparr>world = [''0xD4''], trace = [Call ''/api/hooks/get-tracking-id/'']\<rparr>"
  let ?s2 = "\<lparr>world = [''0xD4''], trace = [Call ''/api/hooks/get-tracking-id/'',
          Call ''/api/hooks/get-leaderboard-info/'']\<rparr>"
  have tracking: "getTrackingId demoConfig demoEnv ?wd (start [''0xD4'']) = (Inr ''t-1'', ?s1)"
    by (simp add: run_defs demo_defs)
  have snapshot: "(case None of Some i \<Rightarrow> returns i
                   | None \<Rightarrow> getLeaderboardInfo demoConfig demoEnv ?wd) ?s1 = (Inr ?info, ?s2)"
    by (simp add: run_defs demo_defs)
  have already: "hasDoneDailyScan ?info = Some True" by simp
  have unforced: "\<not> False" "\<not> forceRescan demoConfig" by (simp_all add: demoConfig_def)
  show ?thesis
    using performScanWorkflow_skips_when_done [OF tracking snapshot already unforced]
    by simp
qed

text \<open>
  C8. The request identifier that \<open>createApiClient\<close> generates is never attached: the
  configuration the HTTP client is created from is the same for every identifier.
\<close>

theorem createApiClient_drops_requestId:
  "createApiClient cfg requestId options wd = createApiClient cfg otherId options wd
   \<and> ''req-1'' \<notin> set (configStrings (createApiClient demoConfig ''req-1'' noOptions
                                    (Some (withoutProxy (demoWallet ''0xA1'')))))"
  by (simp add: createApiClient_def configStrings_def noOptions_def demo_defs)

section \<open>Properties of the proxy resolver\<close>

lemma splitOn_nonempty: "splitOn c str \<noteq> []"
  by (induction str) (auto split: list.splits)

lemma splitOn_absent: "c \<notin> set str \<Longrightarrow> splitOn c str = [str]"
  by (induction str) auto

lemma splitOn_append: "c \<notin> set a \<Longrightarrow> splitOn c (a @ c # b) = a # splitOn c b"
  by (induction a) auto

lemma specValidPort_chars:
  assumes "specValidPort p"
  shows "p \<noteq> []" and "CHR ''@'' \<notin> set p" and "CHR '':'' \<notin> set p" and "CHR ''/'' \<notin> set p"
proof -
  have "CHR ''@'' \<notin> set ''0123456789''" "CHR '':'' \<notin> set ''0123456789''"
    "CHR ''/'' \<notin> set ''0123456789''" by simp_all
  moreover have digits: "\<forall>c\<in>set p. c \<in> set ''0123456789''" and ne: "p \<noteq> []"
    using assms unfolding specValidPort_def list_all_iff by blast+
  ultimately show "p \<noteq> []" and "CHR ''@'' \<notin> set p" and "CHR '':'' \<notin> set p"
    and "CHR ''/'' \<notin> set p" by blast+
qed

lemma startsWith_append: "startsWith pre str \<Longrightarrow> str = pre @ drop (length pre) str"
  unfolding startsWith_def by (metis append_take_drop_id)

lemma first_separator:
  assumes "c \<notin> set a" and "c \<notin> set a'" and eq: "a @ c # b = a' @ c # b'"
  shows "a = a' \<and> b = b'"
proof -
  have "takeWhile (\<lambda>x. x \<noteq> c) (a @ c # b) = a"
    using assms(1) by (auto simp: takeWhile_tail)
  moreover have "takeWhile (\<lambda>x. x \<noteq> c) (a' @ c # b') = a'"
    using assms(2) by (auto simp: takeWhile_tail)
  ultimately have "a = a'" using eq by simp
  with eq show ?thesis by simp
qed

lemma no_scheme_before_port:
  assumes h: "CHR '':'' \<notin> set h" and sc: "CHR '':'' \<notin> set sc"
    and p: "p \<noteq> []" "CHR ''/'' \<notin> set p"
  shows "\<not> startsWith (sc @ ''://'') (h @ CHR '':'' # p)"
proof
  assume "startsWith (sc @ ''://'') (h @ CHR '':'' # p)"
  from startsWith_append [OF this] obtain rest where
    eq: "h @ CHR '':'' # p = sc @ CHR '':'' # (''//'' @ rest)" by auto
  have "p = ''//'' @ rest"
    by (rule first_separator [OF h sc eq, THEN conjunct2])
  with p show False by simp
qed

lemma hostPort_has_no_scheme:
  assumes "CHR '':'' \<notin> set h" and "specValidPort p"
  shows "\<not> hasScheme (h @ CHR '':'' # p)"
proof -
  note port = specValidPort_chars [OF assms(2)]
  have "\<not> startsWith (sc @ ''://'') (h @ CHR '':'' # p)" if "CHR '':'' \<notin> set sc" for sc
    using no_scheme_before_port [OF assms(1) that port(1) port(4)] .
  from this [of "''socks''"] this [of "''socks4''"] this [of "''socks5''"] this [of "''http''"]
    this [of "''https''"]
  show ?thesis by (simp add: hasScheme_def)
qed

lemma parseProxy_host_port: "parseProxy env str = Some d \<Longrightarrow> host d \<noteq> [] \<and> port d \<noteq> []"
  by (auto simp: parseProxy_def parseProxyBody_def split: sum.splits prod.splits option.splits if_splits)

lemma parseProxy_bare_hostPort:
  assumes h: "h \<noteq> []" "CHR '':'' \<notin> set h" "CHR ''@'' \<notin> set h" and p: "specValidPort p"
  shows "parseProxy env (h @ '':'' @ p)
           = Some \<lparr>protocol = ''http'', auth = None, host = h, port = p\<rparr>"
proof -
  note port = specValidPort_chars [OF p]
  have bare: "\<not> hasScheme (h @ CHR '':'' # p)" by (rule hostPort_has_no_scheme [OF h(2) p])
  have pieces: "splitOn (CHR '':'') (h @ CHR '':'' # p) = [h, p]"
    by (simp add: splitOn_append h(2) splitOn_absent port(3))
  have "locate env (h @ CHR '':'' # p) = Inr (''http'', None, Some h, Some p)"
    using bare h(3) port(2)
    by (simp add: locate_def hasScheme_def includesChar_def pieces element_def)
  then show ?thesis
    using h(1) port(1) by (simp add: parseProxy_def parseProxyBody_def)
qed

lemma parseProxy_bare_userPass:
  assumes h: "h \<noteq> []" "CHR '':'' \<notin> set h" "CHR ''@'' \<notin> set h" and p: "specValidPort p"
    and user: "CHR '':'' \<notin> set user" "CHR ''@'' \<notin> set user"
    and pass: "CHR '':'' \<notin> set pass" "CHR ''@'' \<notin> set pass"
    and bare: "\<not> hasScheme (user @ '':'' @ pass @ ''@'' @ h @ '':'' @ p)"
  shows "parseProxy env (user @ '':'' @ pass @ ''@'' @ h @ '':'' @ p)
           = Some \<lparr>protocol = ''http'',
                   auth = Some \<lparr>username = user, password = Some pass\<rparr>, host = h, port = p\<rparr>"
proof -
  note port = specValidPort_chars [OF p]
  let ?up = "user @ CHR '':'' # pass"
  let ?hp = "h @ CHR '':'' # p"
  have str: "user @ '':'' @ pass @ ''@'' @ h @ '':'' @ p = ?up @ CHR ''@'' # ?hp" by simp
  have up: "CHR ''@'' \<notin> set ?up" using user(2) pass(2) by simp
  have hp: "CHR ''@'' \<notin> set ?hp" using h(3) port(2) by simp
  have parts: "splitOn (CHR ''@'') (?up @ CHR ''@'' # ?hp) = [?up, ?hp]"
    by (simp only: splitOn_append [OF up] splitOn_absent [OF hp])
  have userPass: "splitOn (CHR '':'') ?up = [user, pass]"
    by (simp add: splitOn_append user(1) splitOn_absent pass(1))
  have hostPort: "splitOn (CHR '':'') ?hp = [h, p]"
    by (simp add: splitOn_append h(2) splitOn_absent port(3))
  define whole where "whole = ?up @ CHR ''@'' # ?hp"
  have at: "CHR ''@'' \<in> set whole" by (simp add: whole_def)
  have "locate env whole
      = Inr (''http'', Some \<lparr>username = user, password = Some pass\<rparr>, Some h, Some p)"
    using bare at unfolding str whole_def [symmetric]
    by (simp add: locate_def hasScheme_def includesChar_def parts [folded whole_def] userPass
        hostPort element_def Let_def)
  then show ?thesis
    unfolding str whole_def [symmetric]
    using h(1) port(1) by (simp add: parseProxy_def parseProxyBody_def)
qed

lemma parseProxy_scheme:
  "hasScheme str \<Longrightarrow>
   parseProxy env str =
     (case newURL env str of
        Inl e \<Rightarrow> None
      | Inr u \<Rightarrow>
          if urlHostname u = [] \<or> urlPort u = [] then None
          else Some \<lparr>protocol = remove1 (CHR '':'') (urlProtocol u),
                     auth = (if urlUsername u \<noteq> [] \<and> urlPassword u \<noteq> []
                             then Some \<lparr>username = urlUsername u, password = Some (urlPassword u)\<rparr>
                             else None),
                     host = urlHostname u, port = urlPort u\<rparr>)"
  by (auto simp: parseProxy_def parseProxyBody_def locate_def hasScheme_def fromURL_def
      split: sum.splits)

lemma plainProxyURL_hasScheme:
  "scheme \<in> set specSchemes \<Longrightarrow> hasScheme (plainProxyURL scheme user pass h p)"
  by (auto simp: specSchemes_def hasScheme_def plainProxyURL_def startsWith_def)

lemma scheme_without_colon:
  "scheme \<in> set specSchemes \<Longrightarrow> remove1 (CHR '':'') (scheme @ '':'') = scheme"
  by (auto simp: specSchemes_def)

lemma parseProxy_plain_url:
  assumes scheme: "scheme \<in> set specSchemes" and h: "h \<noteq> []" and p: "p \<noteq> []"
    and port: "defaultPort scheme \<noteq> Some p"
    and url: "newURL env (plainProxyURL scheme user pass h p)
                = Inr (standardURL scheme user pass h p)"
  shows "parseProxy env (plainProxyURL scheme user pass h p)
           = Some \<lparr>protocol = scheme,
                   auth = (if user \<noteq> [] \<and> pass \<noteq> []
                           then Some \<lparr>username = user, password = Some pass\<rparr> else None),
                   host = h, port = p\<rparr>"
  using h p port scheme_without_colon [OF scheme]
  by (simp add: parseProxy_scheme [OF plainProxyURL_hasScheme [OF scheme]] url standardURL_def)

lemma parseProxy_nothing:
  "\<not> hasScheme str \<Longrightarrow> \<not> includesChar (CHR ''@'') str \<Longrightarrow> \<not> includesChar (CHR '':'') str
   \<Longrightarrow> parseProxy env str = None"
  by (simp add: parseProxy_def parseProxyBody_def locate_def hasScheme_def)

text \<open>
  The default port of a scheme is lost: for \<^verbatim>\<open>http://host:80\<close> and
  \<^verbatim>\<open>https://host:443\<close> the \<^verbatim>\<open>URL\<close> class reports an empty port, the validation
  \<^verbatim>\<open>!port\<close> throws, and \<open>parseProxy\<close> returns \<^verbatim>\<open>null\<close> for a string of an accepted
  shape.
\<close>

lemma parseProxy_default_port_lost:
  assumes "scheme \<in> set specSchemes" and "defaultPort scheme = Some p"
    and "newURL env (plainProxyURL scheme user pass h p)
           = Inr (standardURL scheme user pass h p)"
  shows "parseProxy env (plainProxyURL scheme user pass h p) = None"
  using assms(2)
  by (simp add: parseProxy_scheme [OF plainProxyURL_hasScheme [OF assms(1)]] assms(3)
      standardURL_def)

lemmas proxy_defs = parseProxy_def parseProxyBody_def locate_def startsWith_def includesChar_def
  element_def fromURL_def hasScheme_def

lemmas spec_defs = specAcceptedShape_def specHostPort_def specUserPassHostPort_def
  specValidPort_def specSchemes_def

lemmas url_defs = demoEnv_def demoURL_def standardURL_def defaultPort_def plainProxyURL_def
  newError_def

lemma demo_default_port_lost:
  "specAcceptedShape ''http://proxy.example:80''
   \<and> parseProxy demoEnv ''http://proxy.example:80'' = None"
proof -
  have shape: "specAcceptedShape ''http://proxy.example:80''"
    by (simp add: spec_defs proxy_defs)
  have "''http'' \<in> set specSchemes" by (simp add: specSchemes_def)
  from parseProxy_default_port_lost [OF this, of "''80''" demoEnv "[]" "[]" "''proxy.example''"]
  have "parseProxy demoEnv ''http://proxy.example:80'' = None"
    by (simp add: url_defs)
  with shape show ?thesis by simp
qed

lemma demo_shapes:
  "specValidPort ''8080''" "specValidPort ''3128''"
  "\<not> hasScheme ''u:p@10.0.0.3:3128''"
  "''socks5'' \<in> set specSchemes"
  "hasScheme ''socks://''" "\<not> succeeded (newURL demoEnv ''socks://'')"
  "\<not> hasScheme ''direct''" "\<not> includesChar (CHR ''@'') ''direct''"
  "\<not> includesChar (CHR '':'') ''direct''"
  by (simp_all add: proxy_defs spec_defs url_defs succeeded_def)

text \<open>
  C6, as the code has it. Every descriptor \<open>parseProxy\<close> returns has a non-empty host and a
  non-empty port string. A bare \<^verbatim>\<open>host:port\<close> and a bare \<^verbatim>\<open>user:pass@host:port\<close> (one
  that does not begin with a scheme prefix) with a non-empty host and a valid port are
  parsed into the \<^verbatim>\<open>http\<close> descriptor with exactly that host, that port and those
  credentials. A plain URL \<^verbatim>\<open>scheme://[user:pass@]host:port\<close> with one of the five schemes,
  for which the \<^verbatim>\<open>URL\<close> class gives the answer of the URL Standard and whose port is not
  the default port of the scheme, is parsed into the descriptor with that scheme, host,
  port and credentials. When the \<^verbatim>\<open>URL\<close> class throws, and when a bare string contains
  neither \<^verbatim>\<open>@\<close> nor \<^verbatim>\<open>:\<close>, the result is \<^verbatim>\<open>null\<close>; nothing is raised.
\<close>

theorem parseProxy_descriptor:
  "(\<forall>d. parseProxy env str = Some d \<longrightarrow> host d \<noteq> [] \<and> port d \<noteq> [])
   \<and> (h \<noteq> [] \<and> CHR '':'' \<notin> set h \<and> CHR ''@'' \<notin> set h \<and> specValidPort p \<longrightarrow>
        parseProxy env (h @ '':'' @ p)
          = Some \<lparr>protocol = ''http'', auth = None, host = h, port = p\<rparr>)
   \<and> (h \<noteq> [] \<and> CHR '':'' \<notin> set h \<and> CHR ''@'' \<notin> set h \<and> specValidPort p
        \<and> CHR '':'' \<notin> set user \<and> CHR ''@'' \<notin> set user
        \<and> CHR '':'' \<notin> set pass \<and> CHR ''@'' \<notin> set pass
        \<and> \<not> hasScheme (user @ '':'' @ pass @ ''@'' @ h @ '':'' @ p) \<longrightarrow>
        parseProxy env (user @ '':'' @ pass @ ''@'' @ h @ '':'' @ p)
          = Some \<lparr>protocol = ''http'',
                  auth = Some \<lparr>username = user, password = Some pass\<rparr>, host = h, port = p\<rparr>)
   \<and> (scheme \<in> set specSchemes \<and> h \<noteq> [] \<and> p \<noteq> [] \<and> defaultPort scheme \<noteq> Some p
        \<and> newURL env (plainProxyURL scheme user pass h p)
             = Inr (standardURL scheme user pass h p) \<longrightarrow>
        parseProxy env (plainProxyURL scheme user pass h p)
          = Some \<lparr>protocol = scheme,
                  auth = (if user \<noteq> [] \<and> pass \<noteq> []
                          then Some \<lparr>username = user, password = Some pass\<rparr> else None),
                  host = h, port = p\<rparr>)
   \<and> (hasScheme str \<and> \<not> succeeded (newURL env str) \<longrightarrow> parseProxy env str = None)
   \<and> (\<not> hasScheme str \<and> \<not> includesChar (CHR ''@'') str \<and> \<not> includesChar (CHR '':'') str
        \<longrightarrow> parseProxy env str = None)"
proof -
  have nonempty: "\<forall>d. parseProxy env str = Some d \<longrightarrow> host d \<noteq> [] \<and> port d \<noteq> []"
    using parseProxy_host_port by blast
  have hostPort: "h \<noteq> [] \<and> CHR '':'' \<notin> set h \<and> CHR ''@'' \<notin> set h \<and> specValidPort p \<longrightarrow>
        parseProxy env (h @ '':'' @ p)
          = Some \<lparr>protocol = ''http'', auth = None, host = h, port = p\<rparr>"
    using parseProxy_bare_hostPort [of h p env] by blast
  have userPass: "h \<noteq> [] \<and> CHR '':'' \<notin> set h \<and> CHR ''@'' \<notin> set h \<and> specValidPort p
        \<and> CHR '':'' \<notin> set user \<and> CHR ''@'' \<notin> set user
        \<and> CHR '':'' \<notin> set pass \<and> CHR ''@'' \<notin> set pass
        \<and> \<not> hasScheme (user @ '':'' @ pass @ ''@'' @ h @ '':'' @ p) \<longrightarrow>
        parseProxy env (user @ '':'' @ pass @ ''@'' @ h @ '':'' @ p)
          = Some \<lparr>protocol = ''http'',
                  auth = Some \<lparr>username = user, password = Some pass\<rparr>, host = h, port = p\<rparr>"
    using parseProxy_bare_userPass [of h p user pass env] by blast
  have plain: "scheme \<in> set specSchemes \<and> h \<noteq> [] \<and> p \<noteq> [] \<and> defaultPort scheme \<noteq> Some p
        \<and> newURL env (plainProxyURL scheme user pass h p)
             = Inr (standardURL scheme user pass h p) \<longrightarrow>
        parseProxy env (plainProxyURL scheme user pass h p)
          = Some \<lparr>protocol = scheme,
                  auth = (if user \<noteq> [] \<and> pass \<noteq> []
                          then Some \<lparr>username = user, password = Some pass\<rparr> else None),
                  host = h, port = p\<rparr>"
    using parseProxy_plain_url [of scheme h p env user pass] by blast
  have thrown: "hasScheme str \<and> \<not> succeeded (newURL env str) \<longrightarrow> parseProxy env str = None"
    by (auto simp: parseProxy_scheme succeeded_def split: sum.splits)
  have none_found: "\<not> hasScheme str \<and> \<not> includesChar (CHR ''@'') str
        \<and> \<not> includesChar (CHR '':'') str \<longrightarrow> parseProxy env str = None"
    using parseProxy_nothing [of str env] by blast
  show ?thesis
    by (rule conjI [OF nonempty conjI [OF hostPort conjI [OF userPass
          conjI [OF plain conjI [OF thrown none_found]]]]])
qed

theorem parseProxy_descriptor_witness:
  "parseProxy demoEnv ''10.0.0.1:8080''
     = Some \<lparr>protocol = ''http'', auth = None, host = ''10.0.0.1'', port = ''8080''\<rparr>
   \<and> parseProxy demoEnv ''u:p@10.0.0.3:3128''
     = Some \<lparr>protocol = ''http'', auth = Some \<lparr>username = ''u'', password = Some ''p''\<rparr>,
             host = ''10.0.0.3'', port = ''3128''\<rparr>
   \<and> newURL demoEnv ''socks5://u:p@10.0.0.2:1080''
     = Inr (standardURL ''socks5'' ''u'' ''p'' ''10.0.0.2'' ''1080'')
   \<and> parseProxy demoEnv ''socks5://u:p@10.0.0.2:1080''
     = Some \<lparr>protocol = ''socks5'', auth = Some \<lparr>username = ''u'', password = Some ''p''\<rparr>,
             host = ''10.0.0.2'', port = ''1080''\<rparr>
   \<and> parseProxy demoEnv ''socks://'' = None
   \<and> parseProxy demoEnv ''direct'' = None"
proof -
  note hostPort = parseProxy_descriptor [THEN conjunct2, THEN conjunct1, rule_format]
  note userPass = parseProxy_descriptor
    [THEN conjunct2, THEN conjunct2, THEN conjunct1, rule_format]
  note plain = parseProxy_descriptor
    [THEN conjunct2, THEN conjunct2, THEN conjunct2, THEN conjunct1, rule_format]
  note thrown = parseProxy_descriptor
    [THEN conjunct2, THEN conjunct2, THEN conjunct2, THEN conjunct2, THEN conjunct1, rule_format]
  note none_found = parseProxy_descriptor
    [THEN conjunct2, THEN conjunct2, THEN conjunct2, THEN conjunct2, THEN conjunct2, rule_format]
  have a: "parseProxy demoEnv ''10.0.0.1:8080''
     = Some \<lparr>protocol = ''http'', auth = None, host = ''10.0.0.1'', port = ''8080''\<rparr>"
    using hostPort [where h = "''10.0.0.1''" and p = "''8080''" and env = demoEnv] demo_shapes(1)
    by simp
  have b: "parseProxy demoEnv ''u:p@10.0.0.3:3128''
     = Some \<lparr>protocol = ''http'', auth = Some \<lparr>username = ''u'', password = Some ''p''\<rparr>,
             host = ''10.0.0.3'', port = ''3128''\<rparr>"
    using userPass [where h = "''10.0.0.3''" and p = "''3128''" and user = "''u''"
        and pass = "''p''" and env = demoEnv] demo_shapes(2,3)
    by simp
  have url: "newURL demoEnv ''socks5://u:p@10.0.0.2:1080''
     = Inr (standardURL ''socks5'' ''u'' ''p'' ''10.0.0.2'' ''1080'')"
    by (simp add: demoEnv_def demoURL_def)
  have c: "parseProxy demoEnv ''socks5://u:p@10.0.0.2:1080''
     = Some \<lparr>protocol = ''socks5'', auth = Some \<lparr>username = ''u'', password = Some ''p''\<rparr>,
             host = ''10.0.0.2'', port = ''1080''\<rparr>"
    using plain [where scheme = "''socks5''" and h = "''10.0.0.2''" and p = "''1080''"
        and user = "''u''" and pass = "''p''" and env = demoEnv] demo_shapes(4) url
    by (simp add: plainProxyURL_def defaultPort_def)
  have d: "parseProxy demoEnv ''socks://'' = None"
    using thrown [where str = "''socks://''" and env = demoEnv] demo_shapes(5,6) by simp
  have e: "parseProxy demoEnv ''direct'' = None"
    using none_found [where str = "''direct''" and env = demoEnv] demo_shapes(7,8,9) by simp
  from a b url c d e show ?thesis by simp
qed

text \<open>
  C6, as stated, fails: \<^verbatim>\<open>proxy.example:abc\<close> has none of the four accepted shapes (its
  port is not a number), yet \<open>parseProxy\<close> returns a descriptor for it, with port
  \<^verbatim>\<open>abc\<close>.
\<close>

theorem parseProxy_unvalidated_counterexample:
  "\<not> specAcceptedShape ''proxy.example:abc''
   \<and> parseProxy demoEnv ''proxy.example:abc''
       = Some \<lparr>protocol = ''http'', auth = None, host = ''proxy.example'', port = ''abc''\<rparr>
   \<and> \<not> specValidPort ''abc''"
  by (simp add: proxy_defs spec_defs)

lemma checkIp_guarded:
  "\<exists>ip s1. tryCatch (checkIpWithProxy env a) (\<lambda>error. returns None) s = (Inr ip, s1)"
  by (auto simp: prog_defs checkIpWithProxy_def split: prod.splits sum.splits)

lemma assignFrom_annotates:
  "\<exists>out s1. assignFrom env proxies i wallets s = (Inr out, s1)
     \<and> map wallet.truncate out = wallets
     \<and> map proxyString out
         = map (\<lambda>k. Some (proxies ! ((i + k) mod length proxies))) [0..<length wallets]
     \<and> map proxy out
         = map (\<lambda>k. createProxyAgent env (proxies ! ((i + k) mod length proxies)))
             [0..<length wallets]"
proof (induction wallets arbitrary: i s)
  case Nil
  then show ?case by simp
next
  case (Cons w rest)
  let ?str = "proxies ! (i mod length proxies)"
  let ?agent = "createProxyAgent env ?str"
  have "\<exists>ip s1. (case ?agent of
        Some a \<Rightarrow> tryCatch (checkIpWithProxy env a) (\<lambda>error. returns None) s
      | None \<Rightarrow> (Inr None, s)) = (Inr ip, s1)"
  proof (cases ?agent)
    case None
    then show ?thesis by simp
  next
    case (Some a)
    then show ?thesis using checkIp_guarded [of env a s] by simp
  qed
  then obtain ip s1 where probe:
    "(case ?agent of
        Some a \<Rightarrow> tryCatch (checkIpWithProxy env a) (\<lambda>error. returns None) s
      | None \<Rightarrow> (Inr None, s)) = (Inr ip, s1)"
    by blast
  from Cons.IH [of "i + 1" s1] obtain out s2 where
    rest: "assignFrom env proxies (i + 1) rest s1 = (Inr out, s2)"
    and fields: "map wallet.truncate out = rest"
    and strings: "map proxyString out
         = map (\<lambda>k. Some (proxies ! ((i + 1 + k) mod length proxies))) [0..<length rest]"
    and agents: "map proxy out
         = map (\<lambda>k. createProxyAgent env (proxies ! ((i + 1 + k) mod length proxies)))
             [0..<length rest]"
    by blast
  have run: "assignFrom env proxies i (w # rest) s =
      (Inr (\<lparr>address = address w, privateKey = privateKey w, ethersInstance = ethersInstance w,
             proxy = ?agent, proxyString = Some ?str, proxyIp = ip\<rparr> # out), s2)"
    using probe rest by (simp add: Let_def)
  have head: "wallet.truncate \<lparr>address = address w, privateKey = privateKey w,
      ethersInstance = ethersInstance w, proxy = ?agent, proxyString = Some ?str,
      proxyIp = ip\<rparr> = w"
    by (simp add: wallet.truncate_def)
  show ?case
    unfolding run using fields strings agents head
    by (simp add: map_upt_Suc del: upt_Suc)
qed

lemmas assign_defs = assignProxiesToWallets_def assignFrom.simps createProxyAgent_def
  checkIpWithProxy_def interpolate_def falsy_def ipifyURL_def Let_def
  demoProxies_def demoWallets_def demoURL_def standardURL_def defaultPort_def

lemma demo_assignment:
  "assignProxiesToWallets demoConfig demoEnv demoProxies demoWallets (start []) =
     (Inr [\<lparr>address = ''0xA1'', privateKey = ''key-of-0xA1'', ethersInstance = (),
            proxy = Some (HttpsProxyAgent ''http://10.0.0.1:8080''),
            proxyString = Some ''10.0.0.1:8080'', proxyIp = Some ''203.0.113.7''\<rparr>,
           \<lparr>address = ''0xB2'', privateKey = ''key-of-0xB2'', ethersInstance = (),
            proxy = Some (SocksProxyAgent ''socks5://u:p@10.0.0.2:1080''),
            proxyString = Some ''socks5://u:p@10.0.0.2:1080'', proxyIp = Some ''203.0.113.7''\<rparr>,
           \<lparr>address = ''0xC3'', privateKey = ''key-of-0xC3'', ethersInstance = (),
            proxy = Some (HttpsProxyAgent ''http://10.0.0.1:8080''),
            proxyString = Some ''10.0.0.1:8080'', proxyIp = Some ''203.0.113.7''\<rparr>],
      \<lparr>world = [], trace = [Call ipifyURL, Call ipifyURL, Call ipifyURL]\<rparr>)"
  by (simp add: assign_defs proxy_defs prog_defs invoke_def demo_defs)

text \<open>
  C5. With proxy use disabled or an empty proxy list, every wallet is returned with a
  \<^verbatim>\<open>null\<close> agent and nothing is raised. With \<open>M > 0\<close> proxy strings, the assignment does
  not raise, and wallet \<open>i\<close> gets proxy string \<open>i mod M\<close> and the agent built from it,
  whatever the state of the world the assignment runs in.
\<close>

theorem assignProxiesToWallets_cyclic:
  "(\<not> useProxy cfg \<or> proxies = [] \<longrightarrow>
      assignProxiesToWallets cfg env proxies wallets s = (Inr (map withoutProxy wallets), s)
      \<and> (\<forall>w \<in> set wallets. proxy (withoutProxy w) = None))
   \<and> (useProxy cfg \<and> proxies \<noteq> [] \<longrightarrow>
      (case assignProxiesToWallets cfg env proxies wallets s of
         (Inl e, s1) \<Rightarrow> False
       | (Inr out, s1) \<Rightarrow>
           length out = length wallets
           \<and> (\<forall>i < length wallets.
                 proxyString (out ! i) = Some (proxies ! (i mod length proxies))
                 \<and> proxy (out ! i) = createProxyAgent env (proxies ! (i mod length proxies)))))"
proof (rule conjI; rule impI)
  assume "\<not> useProxy cfg \<or> proxies = []"
  then show "assignProxiesToWallets cfg env proxies wallets s = (Inr (map withoutProxy wallets), s)
      \<and> (\<forall>w \<in> set wallets. proxy (withoutProxy w) = None)"
    by (auto simp: assignProxiesToWallets_def returns_def withoutProxy_def)
next
  assume on: "useProxy cfg \<and> proxies \<noteq> []"
  obtain out s1 where run: "assignFrom env proxies 0 wallets s = (Inr out, s1)"
    and fields: "map wallet.truncate out = wallets"
    and strings: "map proxyString out
         = map (\<lambda>k. Some (proxies ! ((0 + k) mod length proxies))) [0..<length wallets]"
    and agents: "map proxy out
         = map (\<lambda>k. createProxyAgent env (proxies ! ((0 + k) mod length proxies)))
             [0..<length wallets]"
    using assignFrom_annotates [of env proxies 0 wallets s] by blast
  have len: "length out = length wallets"
    using fields by (metis length_map)
  have "proxyString (out ! i) = Some (proxies ! (i mod length proxies))
        \<and> proxy (out ! i) = createProxyAgent env (proxies ! (i mod length proxies))"
    if "i < length wallets" for i
  proof -
    have "map proxyString out ! i = Some (proxies ! (i mod length proxies))"
      using that by (simp add: strings)
    moreover have "map proxy out ! i = createProxyAgent env (proxies ! (i mod length proxies))"
      using that by (simp add: agents)
    ultimately show ?thesis using that len by simp
  qed
  with len on run
  show "case assignProxiesToWallets cfg env proxies wallets s of
         (Inl e, s1) \<Rightarrow> False
       | (Inr out, s1) \<Rightarrow>
           length out = length wallets
           \<and> (\<forall>i < length wallets.
                 proxyString (out ! i) = Some (proxies ! (i mod length proxies))
                 \<and> proxy (out ! i) = createProxyAgent env (proxies ! (i mod length proxies)))"
    by (simp add: assignProxiesToWallets_def)
qed

theorem assignProxiesToWallets_cyclic_witness:
  "assignProxiesToWallets (demoConfig\<lparr>useProxy := False\<rparr>) demoEnv demoProxies demoWallets (start [])
     = (Inr (map withoutProxy demoWallets), start [])
   \<and> assignProxiesToWallets demoConfig demoEnv [] demoWallets (start [])
     = (Inr (map withoutProxy demoWallets), start [])
   \<and> useProxy demoConfig \<and> demoProxies \<noteq> []
   \<and> map proxyString (projr (fst (assignProxiesToWallets demoConfig demoEnv demoProxies
                                       demoWallets (start []))))
     = [Some ''10.0.0.1:8080'', Some ''socks5://u:p@10.0.0.2:1080'', Some ''10.0.0.1:8080'']"
proof -
  have on: "useProxy demoConfig \<and> demoProxies \<noteq> []"
    by (simp add: demoConfig_def demoProxies_def)
  have off: "\<not> useProxy (demoConfig\<lparr>useProxy := False\<rparr>) \<or> demoProxies = []" by simp
  note disabled = assignProxiesToWallets_cyclic [THEN conjunct1, rule_format, THEN conjunct1]
  have a: "assignProxiesToWallets (demoConfig\<lparr>useProxy := False\<rparr>) demoEnv demoProxies
             demoWallets (start []) = (Inr (map withoutProxy demoWallets), start [])"
    by (rule disabled [OF off])
  have b: "assignProxiesToWallets demoConfig demoEnv [] demoWallets (start [])
     = (Inr (map withoutProxy demoWallets), start [])"
    by (rule disabled) simp
  have c: "length demoWallets = 3" by (simp add: demoWallets_def)
  from assignProxiesToWallets_cyclic [THEN conjunct2, rule_format, OF on,
      where env = demoEnv and wallets = demoWallets and s = "start []"]
  have "\<forall>i<3. proxyString (projr (fst (assignProxiesToWallets demoConfig demoEnv demoProxies
            demoWallets (start []))) ! i) = Some (demoProxies ! (i mod length demoProxies))"
    and "length (projr (fst (assignProxiesToWallets demoConfig demoEnv demoProxies
            demoWallets (start [])))) = 3"
    by (auto simp: c split: prod.splits sum.splits)
  then have "map proxyString (projr (fst (assignProxiesToWallets demoConfig demoEnv demoProxies
                                       demoWallets (start []))))
     = [Some ''10.0.0.1:8080'', Some ''socks5://u:p@10.0.0.2:1080'', Some ''10.0.0.1:8080'']"
    by (intro nth_equalityI) (auto simp: demoProxies_def less_Suc_eq numeral_3_eq_3)
  with a b on show ?thesis by simp
qed

text \<open>
  C10. Proxy assignment never raises and returns one annotated wallet per input wallet, in
  the same order, with \<^verbatim>\<open>address\<close>, \<^verbatim>\<open>privateKey\<close> and \<^verbatim>\<open>instance\<close> unchanged.
\<close>

theorem assignProxiesToWallets_frame:
  "case assignProxiesToWallets cfg env proxies wallets s of
     (Inl e, s1) \<Rightarrow> False
   | (Inr out, s1) \<Rightarrow>
       length out = length wallets
       \<and> (\<forall>i < length wallets.
             address (out ! i) = address (wallets ! i)
             \<and> privateKey (out ! i) = privateKey (wallets ! i)
             \<and> ethersInstance (out ! i) = ethersInstance (wallets ! i))"
proof -
  have "\<exists>out s1. assignProxiesToWallets cfg env proxies wallets s = (Inr out, s1)
          \<and> map wallet.truncate out = wallets"
  proof (cases "\<not> useProxy cfg \<or> length proxies = 0")
    case True
    then show ?thesis
      by (auto simp: assignProxiesToWallets_def returns_def withoutProxy_def wallet.truncate_def
          intro!: nth_equalityI)
  next
    case False
    then show ?thesis
      using assignFrom_annotates [of env proxies 0 wallets s]
      by (auto simp: assignProxiesToWallets_def)
  qed
  then obtain out s1 where run: "assignProxiesToWallets cfg env proxies wallets s = (Inr out, s1)"
    and fields: "map wallet.truncate out = wallets" by blast
  have len: "length out = length wallets" using fields by (metis length_map)
  have "address (out ! i) = address (wallets ! i)
        \<and> privateKey (out ! i) = privateKey (wallets ! i)
        \<and> ethersInstance (out ! i) = ethersInstance (wallets ! i)" if "i < length wallets" for i
  proof -
    have "wallets ! i = wallet.truncate (out ! i)"
      using that len fields by (metis nth_map)
    then show ?thesis by (simp add: wallet.truncate_def)
  qed
  with len run show ?thesis by simp
qed

theorem assignProxiesToWallets_frame_witness:
  "map address (projr (fst (assignProxiesToWallets demoConfig demoEnv demoProxies
                               demoWallets (start []))))
     = [''0xA1'', ''0xB2'', ''0xC3'']
   \<and> map privateKey (projr (fst (assignProxiesToWallets demoConfig demoEnv demoProxies
                               demoWallets (start []))))
     = [''key-of-0xA1'', ''key-of-0xB2'', ''key-of-0xC3'']"
proof -
  have c: "length demoWallets = 3" by (simp add: demoWallets_def)
  let ?out = "projr (fst (assignProxiesToWallets demoConfig demoEnv demoProxies
                               demoWallets (start [])))"
  from assignProxiesToWallets_frame [where cfg = demoConfig and env = demoEnv
      and proxies = demoProxies and wallets = demoWallets and s = "start []"]
  have len: "length ?out = 3"
    and same: "\<forall>i<3. address (?out ! i) = address (demoWallets ! i)
                   \<and> privateKey (?out ! i) = privateKey (demoWallets ! i)"
    by (auto simp: c split: prod.splits sum.splits)
  have "map address ?out = map address demoWallets"
    by (intro nth_equalityI) (simp_all add: len c same)
  moreover have "map privateKey ?out = map privateKey demoWallets"
    by (intro nth_equalityI) (simp_all add: len c same)
  ultimately show ?thesis by (simp add: demoWallets_def demoWallet_def)
qed

section \<open>Properties of the batch orchestrator\<close>

lemma assignProxiesToWallets_returns:
  "\<exists>out s1. assignProxiesToWallets cfg env proxies wallets s = (Inr out, s1)
     \<and> map wallet.truncate out = wallets"
proof (cases "\<not> useProxy cfg \<or> length proxies = 0")
  case True
  then show ?thesis
    by (auto simp: assignProxiesToWallets_def returns_def withoutProxy_def wallet.truncate_def
        intro!: nth_equalityI)
next
  case False
  then show ?thesis
    using assignFrom_annotates [of env proxies 0 wallets s]
    by (auto simp: assignProxiesToWallets_def)
qed

lemma processWallet_result:
  "fst (processWallet cfg env wd s) = Inr (succeeded (fst (getLeaderboardInfo cfg env wd s)))"
  by (auto simp: processWallet_def prog_defs succeeded_def split: prod.splits sum.splits)

lemma extendsBy_UNIV: "extendsBy L s s1 \<Longrightarrow> extendsBy UNIV s s1"
  unfolding extendsBy_def by auto

lemma extendsBy_UNIV_trans:
  "extendsBy UNIV s s1 \<Longrightarrow> extendsBy UNIV s1 s2 \<Longrightarrow> extendsBy UNIV s s2"
  using extendsBy_trans [of UNIV s s1 UNIV s2] by simp

lemma grows_returns: "grows (returns x)"
  by (simp add: grows_def returns_def extendsBy_refl)

lemma grows_raises: "grows (raises e)"
  by (simp add: grows_def raises_def extendsBy_refl)

lemma grows_sleep: "grows (sleep ms)"
  by (simp add: grows_def sleep_def slept_def extendsBy_def)

lemma grows_andThen:
  assumes "grows m" and "\<And>x. grows (f x)"
  shows "grows (andThen m f)"
  unfolding grows_def
proof
  fix s
  obtain r s1 where run: "m s = (r, s1)" by (cases "m s")
  have first: "extendsBy UNIV s s1" using assms(1) run unfolding grows_def by (metis snd_conv)
  show "extendsBy UNIV s (snd (andThen m f s))"
  proof (cases r)
    case (Inl e)
    then show ?thesis using first run by (simp add: andThen_def)
  next
    case (Inr x)
    have "extendsBy UNIV s1 (snd (f x s1))" using assms(2) [of x] unfolding grows_def by blast
    with first have "extendsBy UNIV s (snd (f x s1))" by (rule extendsBy_UNIV_trans)
    then show ?thesis using Inr run by (simp add: andThen_def)
  qed
qed

lemma grows_tryCatch:
  assumes "grows m" and "\<And>e. grows (h e)"
  shows "grows (tryCatch m h)"
  unfolding grows_def
proof
  fix s
  obtain r s1 where run: "m s = (r, s1)" by (cases "m s")
  have first: "extendsBy UNIV s s1" using assms(1) run unfolding grows_def by (metis snd_conv)
  show "extendsBy UNIV s (snd (tryCatch m h s))"
  proof (cases r)
    case (Inr x)
    then show ?thesis using first run by (simp add: tryCatch_def)
  next
    case (Inl e)
    have "extendsBy UNIV s1 (snd (h e s1))" using assms(2) [of e] unfolding grows_def by blast
    with first have "extendsBy UNIV s (snd (h e s1))" by (rule extendsBy_UNIV_trans)
    then show ?thesis using Inl run by (simp add: tryCatch_def)
  qed
qed

lemma grows_post: "grows (post cfg env path data opts wd)"
  unfolding grows_def using post_extends extendsBy_UNIV by blast

lemma grows_getLeaderboardInfo: "grows (getLeaderboardInfo cfg env wd)"
  unfolding grows_def using getLeaderboardInfo_extends extendsBy_UNIV by blast

lemma grows_getTrackingId: "grows (getTrackingId cfg env wd)"
  unfolding grows_def using getTrackingId_extends extendsBy_UNIV by blast

lemma grows_body: "grows (case response of None \<Rightarrow> raises e | Some r \<Rightarrow> returns r)"
  by (cases response) (simp_all add: grows_returns grows_raises)

lemma grows_getBasicDashboard: "grows (getBasicDashboard cfg env wd)"
  unfolding getBasicDashboard_def
  by (intro grows_tryCatch grows_andThen grows_post grows_body grows_raises)

lemma grows_performWalletScan: "grows (performWalletScan cfg env wd)"
  unfolding performWalletScan_def
  by (intro grows_tryCatch grows_andThen grows_post grows_body grows_raises)

lemma grows_verdict:
  "grows (let pointsIncreased = a; scanCompleted = b
          in if scanCompleted then returns x else if pointsIncreased then returns y else returns z)"
  by (simp add: Let_def grows_returns)

lemma grows_performScanWorkflow: "grows (performScanWorkflow cfg env wd forceScan existing)"
proof -
  have snapshot: "grows (case existing of Some info \<Rightarrow> returns info
                         | None \<Rightarrow> getLeaderboardInfo cfg env wd)"
    by (cases existing) (simp_all add: grows_returns grows_getLeaderboardInfo)
  show ?thesis
    unfolding performScanWorkflow_def
    by (intro grows_tryCatch grows_andThen grows_getTrackingId snapshot grows_raises)
      (auto intro!: grows_returns grows_andThen grows_tryCatch grows_getBasicDashboard
        grows_performWalletScan grows_sleep grows_getLeaderboardInfo grows_verdict)
qed

lemma retryLoop_first_call:
  "\<exists>es. trace (snd (retryLoop (invoke l op) m d a s)) = trace s @ Call l # es"
proof -
  obtain r w1 where op: "op (world s) = (r, w1)" by (cases "op (world s)")
  let ?s1 = "\<lparr>world = w1, trace = trace s @ [Call l]\<rparr>"
  have inv: "invoke l op s = (r, ?s1)" by (simp add: invoke_def op)
  show ?thesis
  proof (cases r)
    case (Inr v)
    then show ?thesis by (subst retryLoop.simps) (simp add: inv)
  next
    case (Inl e)
    show ?thesis
    proof (cases "a > m")
      case True
      with Inl show ?thesis by (subst retryLoop.simps) (simp add: inv)
    next
      case False
      let ?s2 = "slept (retryDelayFor e d a) ?s1"
      have step: "retryLoop (invoke l op) m d a s = retryLoop (invoke l op) m d (a + 1) ?s2"
        using Inl False by (subst retryLoop.simps) (simp add: inv)
      from retryLoop_extends [of l ?s2 op m d "a + 1"] obtain es where
        "trace (snd (retryLoop (invoke l op) m d (a + 1) ?s2)) = trace ?s2 @ es"
        unfolding extendsBy_def by blast
      then show ?thesis by (simp add: step slept_def)
    qed
  qed
qed

lemma getLeaderboardInfo_first_call:
  "\<exists>es. trace (snd (getLeaderboardInfo cfg env wd s))
          = trace s @ Call ''/api/hooks/get-leaderboard-info/'' # es"
proof -
  have same: "snd (getLeaderboardInfo cfg env wd s) =
        snd (post cfg env ''/api/hooks/get-leaderboard-info/''
             [(''address'', JString (address wd)), (''chainId'', JNumber (chainId cfg)),
              (''includeLeaderboard'', JBoolean False), (''skipCache'', JBoolean True)]
             noOptions wd s)"
    by (simp add: getLeaderboardInfo_def prog_defs split: prod.splits sum.splits option.splits)
  obtain rid w1 where u: "uuidv4 env (world s) = (rid, w1)" by (cases "uuidv4 env (world s)")
  show ?thesis
    unfolding same
    using retryLoop_first_call [of "''/api/hooks/get-leaderboard-info/''" _ _ _ 1 "s\<lparr>world := w1\<rparr>"]
    by (simp add: post_def u withRetry_def)
qed

lemma processWallet_after_query:
  "extendsBy UNIV (snd (getLeaderboardInfo cfg env wd s)) (snd (processWallet cfg env wd s))"
proof -
  obtain r s1 where query: "getLeaderboardInfo cfg env wd s = (r, s1)"
    by (cases "getLeaderboardInfo cfg env wd s")
  show ?thesis
  proof (cases r)
    case (Inl e)
    then show ?thesis
      using query by (simp add: processWallet_def prog_defs extendsBy_refl)
  next
    case (Inr info)
    let ?scan = "if scanEnabled cfg
           then tryCatch
                  (if truthy (hasDoneDailyScan info) \<and> \<not> forceRescan cfg
                   then returns ()
                   else andThen
                          (performScanWorkflow cfg env wd (forceRescan cfg) (Some info))
                          (\<lambda>result. returns ()))
                  (\<lambda>error. returns ())
           else returns ()"
    have "grows ?scan"
      by (auto intro!: grows_tryCatch grows_andThen grows_returns grows_performScanWorkflow)
    then have "grows (tryCatch (andThen ?scan (\<lambda>_. returns True)) (\<lambda>error. returns False))"
      by (intro grows_tryCatch grows_andThen grows_returns)
    then have "extendsBy UNIV s1
        (snd (tryCatch (andThen ?scan (\<lambda>_. returns True)) (\<lambda>error. returns False) s1))"
      unfolding grows_def by blast
    moreover have "snd (processWallet cfg env wd s)
        = snd (tryCatch (andThen ?scan (\<lambda>_. returns True)) (\<lambda>error. returns False) s1)"
      using query Inr
      by (simp add: processWallet_def prog_defs split: prod.splits sum.splits)
    ultimately show ?thesis using query by simp
  qed
qed

lemma processWallet_queries:
  "Call ''/api/hooks/get-leaderboard-info/'' \<in> set (newEvents s (snd (processWallet cfg env wd s)))"
proof -
  from getLeaderboardInfo_first_call [of cfg env wd s] obtain es where
    a: "trace (snd (getLeaderboardInfo cfg env wd s))
          = trace s @ Call ''/api/hooks/get-leaderboard-info/'' # es" by blast
  from processWallet_after_query [of cfg env wd s] obtain es' where
    "trace (snd (processWallet cfg env wd s)) = trace (snd (getLeaderboardInfo cfg env wd s)) @ es'"
    unfolding extendsBy_def by blast
  with a show ?thesis by (simp add: newEvents_def)
qed

lemma length_turns: "length (turns cfg env wds s) = length wds"
  by (induction wds arbitrary: s) auto

lemma processEach_turns:
  "processEach cfg env wds c s = (Inr (c + counted cfg env wds s), finish cfg env wds s)"
proof (induction wds arbitrary: c s)
  case Nil
  then show ?case by (simp add: counted_def)
next
  case (Cons wd rest)
  let ?ok = "succeeded (fst (getLeaderboardInfo cfg env wd s))"
  obtain s1 where one: "processWallet cfg env wd s = (Inr ?ok, s1)"
    using processWallet_result [of cfg env wd s] by (cases "processWallet cfg env wd s") auto
  let ?s2 = "afterWallet cfg env wd (rest \<noteq> []) s"
  have pause: "?s2 = (if rest \<noteq> []
             then (case getRandomDelay env (delayBetweenWallets cfg) (world s1) of
                     (delay, w2) \<Rightarrow> slept delay (s1\<lparr>world := w2\<rparr>))
             else s1)"
    by (simp add: afterWallet_def one)
  have step: "processEach cfg env (wd # rest) c s
      = processEach cfg env rest (if ?ok then c + 1 else c) ?s2"
    unfolding pause by (simp add: one)
  have count: "counted cfg env (wd # rest) s = (if ?ok then 1 else 0) + counted cfg env rest ?s2"
    by (simp add: counted_def)
  show ?case
    unfolding step Cons.IH count by simp
qed

lemma processWallet_runs_workflow:
  assumes "getLeaderboardInfo cfg env wd s = (Inr info, s1)" and "scanEnabled cfg"
    and "\<not> (hasDoneDailyScan info = Some True \<and> \<not> forceRescan cfg)"
  shows "processWallet cfg env wd s
           = (Inr True, snd (performScanWorkflow cfg env wd (forceRescan cfg) (Some info) s1))"
  using assms
  by (auto simp: processWallet_def prog_defs truthy_def split: prod.splits sum.splits)

lemmas batch_defs = processAllWallets_def processEach.simps processWallet_def
  performScanWorkflow_def assignProxiesToWallets_def demoWallets_def truthy_def jsGreater_def
  Let_def

text \<open>
  C4, as the code has it. \<open>processWallet\<close> never raises, always sends the wallet's
  leaderboard request, and returns \<^verbatim>\<open>true\<close> exactly when that query succeeded. When the
  scan is due it runs the scan workflow and returns \<^verbatim>\<open>true\<close> in the state the workflow
  left, whether the workflow returned or raised: the error is caught by the inner
  \<^verbatim>\<open>catch\<close> (``still mark the wallet as processed''). A batch over a non-empty wallet list never
  aborts: after the proxy assignment every wallet has its turn, in list order, each turn
  starting in the state the turn before left; the batch ends in the state after the last
  turn and reports, out of the number of wallets, the number of wallets whose own
  leaderboard query succeeded in their turn.
\<close>

theorem processAllWallets_counts_processed:
  "fst (processWallet cfg env wd s) = Inr (succeeded (fst (getLeaderboardInfo cfg env wd s)))
   \<and> Call ''/api/hooks/get-leaderboard-info/''
        \<in> set (newEvents s (snd (processWallet cfg env wd s)))
   \<and> (getLeaderboardInfo cfg env wd s = (Inr info, s0) \<and> scanEnabled cfg
        \<and> \<not> (hasDoneDailyScan info = Some True \<and> \<not> forceRescan cfg) \<longrightarrow>
        processWallet cfg env wd s
          = (Inr True, snd (performScanWorkflow cfg env wd (forceRescan cfg) (Some info) s0)))
   \<and> (wallets \<noteq> [] \<longrightarrow>
        (\<exists>out s1. assignProxiesToWallets cfg env proxies wallets s = (Inr out, s1)
           \<and> map wallet.truncate out = wallets
           \<and> length (turns cfg env out s1) = length wallets
           \<and> processAllWallets cfg env proxies wallets s
               = (Inr (Some (counted cfg env out s1, length wallets)), finish cfg env out s1)))"
proof -
  have workflow: "getLeaderboardInfo cfg env wd s = (Inr info, s0) \<and> scanEnabled cfg
        \<and> \<not> (hasDoneDailyScan info = Some True \<and> \<not> forceRescan cfg) \<longrightarrow>
        processWallet cfg env wd s
          = (Inr True, snd (performScanWorkflow cfg env wd (forceRescan cfg) (Some info) s0))"
    using processWallet_runs_workflow [of cfg env wd s info s0] by blast
  have batch: "wallets \<noteq> [] \<longrightarrow>
        (\<exists>out s1. assignProxiesToWallets cfg env proxies wallets s = (Inr out, s1)
           \<and> map wallet.truncate out = wallets
           \<and> length (turns cfg env out s1) = length wallets
           \<and> processAllWallets cfg env proxies wallets s
               = (Inr (Some (counted cfg env out s1, length wallets)), finish cfg env out s1))"
  proof
    assume ne: "wallets \<noteq> []"
    obtain out s1 where assigned: "assignProxiesToWallets cfg env proxies wallets s = (Inr out, s1)"
      and fields: "map wallet.truncate out = wallets"
      using assignProxiesToWallets_returns by blast
    have len: "length out = length wallets" using fields by (metis length_map)
    have "processAllWallets cfg env proxies wallets s
        = (Inr (Some (counted cfg env out s1, length wallets)), finish cfg env out s1)"
      using ne assigned len processEach_turns [of cfg env out 0 s1]
      by (simp add: processAllWallets_def prog_defs)
    with assigned fields len show "\<exists>out s1.
        assignProxiesToWallets cfg env proxies wallets s = (Inr out, s1)
           \<and> map wallet.truncate out = wallets
           \<and> length (turns cfg env out s1) = length wallets
           \<and> processAllWallets cfg env proxies wallets s
               = (Inr (Some (counted cfg env out s1, length wallets)), finish cfg env out s1)"
      by (auto simp: length_turns)
  qed
  show ?thesis
    by (rule conjI [OF processWallet_result conjI [OF processWallet_queries
          conjI [OF workflow batch]]])
qed

theorem processAllWallets_counts_processed_witness:
  "fst (performScanWorkflow demoConfig demoEnv (withoutProxy (demoWallet ''0xB2''))
          (forceRescan demoConfig)
          (Some \<lparr>trackingId = None, personalPoints = Some 100, hasDoneDailyScan = Some False\<rparr>)
          \<lparr>world = [], trace = [Call ''/api/hooks/get-leaderboard-info/'']\<rparr>)
     = Inl (httpError 404)
   \<and> processWallet demoConfig demoEnv (withoutProxy (demoWallet ''0xB2'')) (start [])
     = (Inr True,
        \<lparr>world = [], trace = [Call ''/api/hooks/get-leaderboard-info/'',
          Call ''/api/hooks/get-tracking-id/'', Sleep 600, Call ''/api/hooks/get-tracking-id/'']\<rparr>)
   \<and> [demoWallet ''0xE5'', demoWallet ''0xB2'', demoWallet ''0xA1''] \<noteq> []
   \<and> fst (processAllWallets demoConfig demoEnv []
             [demoWallet ''0xE5'', demoWallet ''0xB2'', demoWallet ''0xA1''] (start []))
       = Inr (Some (2, 3))"
proof -
  let ?wd = "withoutProxy (demoWallet ''0xB2'')"
  let ?info = "\<lparr>trackingId = None, personalPoints = Some 100, hasDoneDailyScan = Some False\<rparr>"
  let ?s0 = "\<lparr>world = [], trace = [Call ''/api/hooks/get-leaderboard-info/'']\<rparr>
             :: string list sys"
  have query: "getLeaderboardInfo demoConfig demoEnv ?wd (start []) = (Inr ?info, ?s0)"
    by (simp add: run_defs demo_defs)
  have enabled: "scanEnabled demoConfig" by (simp add: demoConfig_def)
  have needed: "\<not> (hasDoneDailyScan ?info = Some True \<and> \<not> forceRescan demoConfig)" by simp
  have raised: "performScanWorkflow demoConfig demoEnv ?wd (forceRescan demoConfig) (Some ?info) ?s0
      = (Inl (httpError 404),
         \<lparr>world = [], trace = [Call ''/api/hooks/get-leaderboard-info/'',
           Call ''/api/hooks/get-tracking-id/'', Sleep 600,
           Call ''/api/hooks/get-tracking-id/'']\<rparr>)"
    by (simp add: batch_defs run_defs demo_defs)
  have one: "processWallet demoConfig demoEnv ?wd (start [])
     = (Inr True,
        \<lparr>world = [], trace = [Call ''/api/hooks/get-leaderboard-info/'',
          Call ''/api/hooks/get-tracking-id/'', Sleep 600, Call ''/api/hooks/get-tracking-id/'']\<rparr>)"
    using processAllWallets_counts_processed
         [where cfg = demoConfig and env = demoEnv and wd = ?wd and s = "start []"
            and info = ?info and s0 = ?s0,
          THEN conjunct2, THEN conjunct2, THEN conjunct1, rule_format,
          OF conjI [OF query conjI [OF enabled needed]]]
    by (simp add: raised)
  let ?ws = "[demoWallet ''0xE5'', demoWallet ''0xB2'', demoWallet ''0xA1'']"
  have ne: "?ws \<noteq> []" by simp
  from processAllWallets_counts_processed
         [where cfg = demoConfig and env = demoEnv and wallets = ?ws
            and proxies = "[]" and s = "start []",
          THEN conjunct2, THEN conjunct2, THEN conjunct2, rule_format, OF ne]
  obtain out s1 where
    assigned: "assignProxiesToWallets demoConfig demoEnv [] ?ws (start []) = (Inr out, s1)"
    and run: "processAllWallets demoConfig demoEnv [] ?ws (start [])
        = (Inr (Some (counted demoConfig demoEnv out s1, length ?ws)),
           finish demoConfig demoEnv out s1)"
    by blast
  have "assignProxiesToWallets demoConfig demoEnv [] ?ws (start [])
      = (Inr (map withoutProxy ?ws), start [])"
    by (simp add: assignProxiesToWallets_def returns_def)
  with assigned have out: "out = map withoutProxy ?ws" and s1: "s1 = start []" by simp_all
  have "counted demoConfig demoEnv (map withoutProxy ?ws) (start []) = 2"
    by (simp add: counted_def afterWallet_def batch_defs run_defs demo_defs succeeded_def)
  with run out s1 have batch: "fst (processAllWallets demoConfig demoEnv [] ?ws (start []))
       = Inr (Some (2, 3))" by simp
  from raised one batch show ?thesis by simp
qed

text \<open>
  C4, as stated, fails: in a batch of three wallets where the scan workflow of the second
  raises (tracking registration is refused with 404) and the workflows of the first and the
  third succeed, the third wallet is processed, but the reported count is 3 out of 3, not 2.
\<close>

theorem processAllWallets_success_count_counterexample:
  "fst (performScanWorkflow demoConfig demoEnv (withoutProxy (demoWallet ''0xA1'')) False
          (Some \<lparr>trackingId = None, personalPoints = Some 100, hasDoneDailyScan = Some False\<rparr>)
          \<lparr>world = [], trace = [Call ''/api/hooks/get-leaderboard-info/'']\<rparr>)
     = Inr (Verified (Some emptyResponse) True)
   \<and> fst (performScanWorkflow demoConfig demoEnv (withoutProxy (demoWallet ''0xB2'')) False
          (Some \<lparr>trackingId = None, personalPoints = Some 100, hasDoneDailyScan = Some False\<rparr>)
          \<lparr>world = [''0xA1''],
           trace = [Call ''/api/hooks/get-leaderboard-info/'',
                    Call ''/api/hooks/get-tracking-id/'',
                    Call ''/api/hooks/get-basic-dashboard/'',
                    Call ''/api/addresses/0xA1/queue-health/'', Sleep 2000,
                    Call ''/api/hooks/get-leaderboard-info/'', Sleep 1000,
                    Call ''/api/hooks/get-leaderboard-info/'']\<rparr>)
     = Inl (httpError 404)
   \<and> fst (performScanWorkflow demoConfig demoEnv (withoutProxy (demoWallet ''0xC3'')) False
          (Some \<lparr>trackingId = None, personalPoints = Some 100, hasDoneDailyScan = Some False\<rparr>)
          \<lparr>world = [''0xA1''],
           trace = [Call ''/api/hooks/get-leaderboard-info/'',
                    Call ''/api/hooks/get-tracking-id/'',
                    Call ''/api/hooks/get-basic-dashboard/'',
                    Call ''/api/addresses/0xA1/queue-health/'', Sleep 2000,
                    Call ''/api/hooks/get-leaderboard-info/'', Sleep 1000,
                    Call ''/api/hooks/get-leaderboard-info/'',
                    Call ''/api/hooks/get-tracking-id/'', Sleep 600,
                    Call ''/api/hooks/get-tracking-id/'', Sleep 1000,
                    Call ''/api/hooks/get-leaderboard-info/'']\<rparr>)
     = Inr (Verified None True)
   \<and> processAllWallets demoConfig demoEnv [] demoWallets (start [])
     = (Inr (Some (3, 3)),
        \<lparr>world = [''0xC3'', ''0xC3'', ''0xA1''],
         trace = [Call ''/api/hooks/get-leaderboard-info/'',
                  Call ''/api/hooks/get-tracking-id/'',
                  Call ''/api/hooks/get-basic-dashboard/'',
                  Call ''/api/addresses/0xA1/queue-health/'', Sleep 2000,
                  Call ''/api/hooks/get-leaderboard-info/'', Sleep 1000,
                  Call ''/api/hooks/get-leaderboard-info/'',
                  Call ''/api/hooks/get-tracking-id/'', Sleep 600,
                  Call ''/api/hooks/get-tracking-id/'', Sleep 1000,
                  Call ''/api/hooks/get-leaderboard-info/'',
                  Call ''/api/hooks/get-tracking-id/'',
                  Call ''/api/hooks/get-basic-dashboard/'',
                  Call ''/api/addresses/0xC3/queue-health/'', Sleep 600,
                  Call ''/api/addresses/0xC3/queue-health/'', Sleep 2000,
                  Call ''/api/hooks/get-leaderboard-info/'']\<rparr>)
   \<and> fst (processAllWallets demoConfig demoEnv [] demoWallets (start [])) \<noteq> Inr (Some (2, 3))"
  by (simp add: batch_defs run_defs demo_defs)

end
